theory Spec2Isabelle
  imports Main
begin

section \<open>MassDisposer: the values the script handles\<close>

text \<open>
  The script \<^verbatim>\<open>MassDisposer.py\<close> reads five environment variables, asks an
  authentication endpoint for a bearer token, reads a CSV file of assets and two JSON
  templates, and then sends one PATCH and (after a successful PATCH) one POST per asset.

  Everything outside the script is an input of the model: the environment, the answers
  of the network and the contents of the files are fields of a \<open>world\<close>. What the
  script does to the outside (console lines, sleeps, HTTP calls, file opens) is recorded
  in order in a trace. Exceptions are values: a function returns \<open>Inl e\<close> where the
  Python raises \<open>e\<close> to its caller.

  Strings are lists of characters; a character stands for a code point below 256.
\<close>

subsection \<open>Exceptions and \<^verbatim>\<open>except\<close> clauses\<close>

datatype transport_error = ConnectionError | Timeout | TooManyRedirects | InvalidURL

datatype exn_class =
    FileNotFoundError
  | OSError
  | UnicodeDecodeError
  | CsvError
  | JSONDecodeError
  | AttributeError
  | TypeError
  | HTTPError
  | Transport transport_error

text \<open>An exception carries its class and the message that \<^verbatim>\<open>{e}\<close> prints.\<close>

datatype exn = Exn exn_class string

text \<open>
  The classes named by the script's \<^verbatim>\<open>except\<close> clauses. Every exception that
  Requests raises itself derives from \<^verbatim>\<open>requests.RequestException\<close>; \<open>HTTPError\<close>
  is the one \<^verbatim>\<open>raise_for_status\<close> raises, the \<open>Transport\<close> classes are raised by
  the call itself.
\<close>

datatype handler = Exception | RequestException | Only exn_class

fun catches :: "handler \<Rightarrow> exn_class \<Rightarrow> bool" where
  "catches Exception c = True"
| "catches RequestException HTTPError = True"
| "catches RequestException (Transport t) = True"
| "catches RequestException c = False"
| "catches (Only d) c = (c = d)"

subsection \<open>JSON documents\<close>

text \<open>
  A parsed JSON document. A float is kept as its literal, together with whether it is
  zero (the only thing the script ever asks of a number is its truth value).
\<close>

datatype json =
    JNull
  | JBool bool
  | JInt int
  | JFloat bool string
  | JStr string
  | JArr "json list"
  | JObj "(string \<times> json) list"

subsection \<open>HTTP\<close>

datatype http_method = POST | PATCH

record http_request =
  req_method :: http_method
  req_url :: string
  req_headers :: "(string \<times> string) list"
  req_json :: json

text \<open>
  A response: its status code, its body (\<^verbatim>\<open>response.text\<close>), the message of the
  \<open>HTTPError\<close> that \<^verbatim>\<open>raise_for_status\<close> builds for it, and what \<^verbatim>\<open>response.json()\<close>
  prints as when the body decodes (\<open>None\<close> when decoding raises \<open>JSONDecodeError\<close>).
\<close>

record http_response =
  status_code :: nat
  body_text :: string
  error_message :: string
  json_repr :: "string option"

datatype http_outcome = Responded http_response | Raised transport_error string

subsection \<open>Files\<close>

text \<open>
  A row as \<^verbatim>\<open>csv.DictReader\<close> yields it: a dictionary from the header's field names
  to the row's values (each name once), where a row shorter than the header has the
  missing values filled with \<^verbatim>\<open>None\<close> (the reader's default \<^verbatim>\<open>restval\<close>). The surplus
  values of a row longer than the header go under the key \<^verbatim>\<open>None\<close>, which the script
  never reads; they are left out.
\<close>

type_synonym csv_row = "(string \<times> string option) list"

text \<open>
  Opening the CSV file either raises, or yields the rows the reader produces, after
  which the reader may raise (a decoding or a CSV error in the middle of the file).
\<close>

datatype csv_source = CsvOpenRaises exn | CsvOpened "csv_row list" "exn option"

datatype json_source = JsonRaises exn | JsonLoaded json

subsection \<open>The world and the trace\<close>

datatype event =
    Print string
  | Sleep nat
  | OpenFile string
  | Http http_request http_outcome

record world =
  APP_ID :: "string option"
  AUTH_URL :: "string option"
  API_BASE_URL :: "string option"
  USERNAME :: "string option"
  PASSWORD :: "string option"
  network :: "event list \<Rightarrow> http_request \<Rightarrow> http_outcome"
  csv_files :: "string \<Rightarrow> csv_source"
  json_files :: "string \<Rightarrow> json_source"

text \<open>
  The state of a run: the trace so far, and the next free object identity (used by the
  model of mutable dictionaries and lists below).
\<close>

record state =
  trace :: "event list"
  next_id :: nat

definition emit :: "event \<Rightarrow> state \<Rightarrow> state" where
  "emit e s = s\<lparr>trace := trace s @ [e]\<rparr>"

definition initial :: state where
  "initial = \<lparr>trace = [], next_id = 0\<rparr>"

text \<open>One HTTP call: the network answers, the exchange is recorded.\<close>

definition request :: "world \<Rightarrow> http_request \<Rightarrow> state \<Rightarrow> http_outcome \<times> state" where
  "request w r s = (let out = network w (trace s) r in (out, emit (Http r out) s))"

text \<open>\<^verbatim>\<open>response.raise_for_status()\<close> raises for the status codes 400 to 599.\<close>

definition is_error_status :: "nat \<Rightarrow> bool" where
  "is_error_status c = (400 \<le> c \<and> c < 600)"

subsection \<open>String operations\<close>

text \<open>
  A value that is a string or \<^verbatim>\<open>None\<close> (an environment variable, the token),
  as an f-string prints it.
\<close>

definition py_str :: "string option \<Rightarrow> string" where
  "py_str v = (case v of None \<Rightarrow> ''None'' | Some s \<Rightarrow> s)"

text \<open>\<^verbatim>\<open>s.strip(chars)\<close>: every leading and every trailing character of the set goes.\<close>

definition strip_chars :: "(char \<Rightarrow> bool) \<Rightarrow> string \<Rightarrow> string" where
  "strip_chars p s = rev (dropWhile p (rev (dropWhile p s)))"

definition quote :: char where
  "quote = CHR 0x22"

text \<open>
  \<^verbatim>\<open>s.strip()\<close> strips whitespace. Below 256 the code points with \<^verbatim>\<open>isspace()\<close>
  are 9 to 13, 28 to 32, 133 and 160.
\<close>

definition is_space :: "char \<Rightarrow> bool" where
  "is_space c = (let n = (of_char c :: nat) in
     (9 \<le> n \<and> n \<le> 13) \<or> (28 \<le> n \<and> n \<le> 32) \<or> n = 133 \<or> n = 160)"

definition strip :: "string \<Rightarrow> string" where
  "strip s = strip_chars is_space s"

text \<open>
  \<^verbatim>\<open>s.upper()\<close> on the letters a to z. The script only compares the result with
  the ASCII text \<^verbatim>\<open>NOT FOUND IN ITSM\<close>; no other code point below 256 has an upper
  case among the characters of that text (the sharp s becomes SS, which the text does
  not contain), so leaving them in place does not change any comparison.
\<close>

definition upper_char :: "char \<Rightarrow> char" where
  "upper_char c = (let n = (of_char c :: nat) in
     if 97 \<le> n \<and> n \<le> 122 then char_of (n - 32) else c)"

definition upper :: "string \<Rightarrow> string" where
  "upper s = map upper_char s"

section \<open>The authenticator\<close>

text \<open>
  \<^verbatim>\<open>
  def get_bearer_token(username, password):
      try:
          response = requests.post(AUTH_URL, json={"username": username, "password": password})
          response.raise_for_status()
          token = response.text.strip('"')
          print("[INFO] Authenticated successfully.")
          return token
      except requests.HTTPError as e:
          print(f"[ERROR] Authentication failed: {e}. Check credentials and API URLs.")
      return None
  \<close>
  The body of the \<^verbatim>\<open>try\<close> block first, then the function with its one handler.
\<close>

definition json_of_str :: "string option \<Rightarrow> json" where
  "json_of_str v = (case v of None \<Rightarrow> JNull | Some t \<Rightarrow> JStr t)"

definition auth_request :: "world \<Rightarrow> string option \<Rightarrow> string option \<Rightarrow> http_request" where
  "auth_request w username password =
     \<lparr>req_method = POST, req_url = py_str (AUTH_URL w), req_headers = [],
      req_json = JObj [(''username'', json_of_str username),
                       (''password'', json_of_str password)]\<rparr>"

definition get_bearer_token_try ::
  "world \<Rightarrow> string option \<Rightarrow> string option \<Rightarrow> state \<Rightarrow> (exn + string) \<times> state" where
  "get_bearer_token_try w username password s =
     (case request w (auth_request w username password) s of
        (Raised t msg, s1) \<Rightarrow> (Inl (Exn (Transport t) msg), s1)
      | (Responded r, s1) \<Rightarrow>
          if is_error_status (status_code r) then (Inl (Exn HTTPError (error_message r)), s1)
          else (Inr (strip_chars (\<lambda>c. c = quote) (body_text r)),
                emit (Print ''[INFO] Authenticated successfully.'') s1))"

definition get_bearer_token ::
  "world \<Rightarrow> string option \<Rightarrow> string option \<Rightarrow> state
     \<Rightarrow> (exn + string option) \<times> state" where
  "get_bearer_token w username password s =
     (case get_bearer_token_try w username password s of
        (Inr token, s1) \<Rightarrow> (Inr (Some token), s1)
      | (Inl (Exn c msg), s1) \<Rightarrow>
          if catches (Only HTTPError) c
          then (Inr None,
                emit (Print (''[ERROR] Authentication failed: '' @ msg
                             @ ''. Check credentials and API URLs.'')) s1)
          else (Inl (Exn c msg), s1))"

section \<open>The input reader\<close>

text \<open>
  \<^verbatim>\<open>
  def read_ids_from_csv(file_path):
      asset_data = []
      try:
          with open(file_path, newline='') as csvfile:
              reader = csv.DictReader(csvfile)
              for row in reader:
                  asset_id = row.get('ID', '').strip()
                  serial_number = row.get('Serial Number', '').strip()
                  if (asset_id and serial_number
                      and asset_id.upper() != 'NOT FOUND IN ITSM'
                      and serial_number.upper() != 'NOT FOUND IN ITSM'):
                      asset_data.append({'ID': asset_id, 'SerialNumber': serial_number})
          return asset_data
      except FileNotFoundError:
          print(f"[ERROR] CSV file not found at: {file_path}")
      except Exception as e:
          print(f"[ERROR] An error occurred while reading the CSV file: {e}")
      return []
  \<close>
\<close>

record asset =
  ID :: string
  SerialNumber :: string

text \<open>\<^verbatim>\<open>row.get(key, '')\<close>: the default only stands in for a key the row lacks.\<close>

definition row_get :: "csv_row \<Rightarrow> string \<Rightarrow> string option" where
  "row_get row key = (case map_of row key of None \<Rightarrow> Some [] | Some v \<Rightarrow> v)"

text \<open>\<^verbatim>\<open>v.strip()\<close> on a value that may be \<^verbatim>\<open>None\<close>.\<close>

definition strip_value :: "string option \<Rightarrow> exn + string" where
  "strip_value v = (case v of
       None \<Rightarrow> Inl (Exn AttributeError ''NoneType object has no attribute strip'')
     | Some s \<Rightarrow> Inr (strip s))"

definition keep_row :: "string \<Rightarrow> string \<Rightarrow> bool" where
  "keep_row asset_id serial_number =
     (asset_id \<noteq> [] \<and> serial_number \<noteq> []
      \<and> upper asset_id \<noteq> ''NOT FOUND IN ITSM''
      \<and> upper serial_number \<noteq> ''NOT FOUND IN ITSM'')"

text \<open>The \<^verbatim>\<open>for\<close> loop over the rows, with \<open>asset_data\<close> as accumulator.\<close>

fun read_rows :: "csv_row list \<Rightarrow> asset list \<Rightarrow> exn + asset list" where
  "read_rows [] asset_data = Inr asset_data"
| "read_rows (row # rows) asset_data =
     (case strip_value (row_get row ''ID'') of
        Inl e \<Rightarrow> Inl e
      | Inr asset_id \<Rightarrow>
          (case strip_value (row_get row ''Serial Number'') of
             Inl e \<Rightarrow> Inl e
           | Inr serial_number \<Rightarrow>
               read_rows rows
                 (if keep_row asset_id serial_number
                  then asset_data @ [\<lparr>ID = asset_id, SerialNumber = serial_number\<rparr>]
                  else asset_data)))"

definition read_ids_from_csv_try :: "world \<Rightarrow> string \<Rightarrow> exn + asset list" where
  "read_ids_from_csv_try w file_path =
     (case csv_files w file_path of
        CsvOpenRaises e \<Rightarrow> Inl e
      | CsvOpened rows failure \<Rightarrow>
          (case read_rows rows [] of
             Inl e \<Rightarrow> Inl e
           | Inr asset_data \<Rightarrow>
               (case failure of Some e \<Rightarrow> Inl e | None \<Rightarrow> Inr asset_data)))"

definition read_ids_from_csv :: "world \<Rightarrow> string \<Rightarrow> state \<Rightarrow> (exn + asset list) \<times> state" where
  "read_ids_from_csv w file_path s =
     (let s1 = emit (OpenFile file_path) s in
      case read_ids_from_csv_try w file_path of
        Inr asset_data \<Rightarrow> (Inr asset_data, s1)
      | Inl (Exn c msg) \<Rightarrow>
          if catches (Only FileNotFoundError) c
          then (Inr [], emit (Print (''[ERROR] CSV file not found at: '' @ file_path)) s1)
          else if catches Exception c
          then (Inr [], emit (Print (''[ERROR] An error occurred while reading the CSV file: ''
                                     @ msg)) s1)
          else (Inl (Exn c msg), s1))"

section \<open>Python objects with identity\<close>

text \<open>
  The script copies the status template with \<^verbatim>\<open>deepcopy\<close> and then assigns into the
  copy. Whether that assignment can reach the template depends on which objects are
  shared, so dictionaries and lists carry their identity (what \<^verbatim>\<open>id()\<close> returns): an
  assignment into the dictionary with identity \<open>a\<close> changes every occurrence of \<open>a\<close> that
  any variable can reach. Numbers, strings, booleans and \<^verbatim>\<open>None\<close> are immutable and need none.
\<close>

datatype pyval =
    PNone
  | PBool bool
  | PInt int
  | PFloat bool string
  | PStr string
  | PList nat "pyval list"
  | PDict nat "(string \<times> pyval) list"

text \<open>
  \<^verbatim>\<open>d[k] = v\<close> on the items of a dictionary, which keeps insertion order: an existing
  key keeps its place and takes the new value, a new key goes last.
\<close>

fun dict_set :: "string \<Rightarrow> 'v \<Rightarrow> (string \<times> 'v) list \<Rightarrow> (string \<times> 'v) list" where
  "dict_set k v [] = [(k, v)]"
| "dict_set k v ((k', v') # kvs) =
     (if k' = k then (k, v) # kvs else (k', v') # dict_set k v kvs)"

text \<open>The dictionary the JSON decoder builds from the pairs of an object, in file order.\<close>

definition build_dict :: "(string \<times> 'v) list \<Rightarrow> (string \<times> 'v) list" where
  "build_dict pairs = fold (\<lambda>(k, v) d. dict_set k v d) pairs []"

text \<open>
  \<^verbatim>\<open>json.load\<close>: every array and object of the document becomes a new list or
  dictionary; the counter is the next free identity.
\<close>

fun from_json :: "json \<Rightarrow> nat \<Rightarrow> pyval \<times> nat"
  and from_json_list :: "json list \<Rightarrow> nat \<Rightarrow> pyval list \<times> nat"
  and from_json_pairs :: "(string \<times> json) list \<Rightarrow> nat \<Rightarrow> (string \<times> pyval) list \<times> nat" where
  "from_json JNull n = (PNone, n)"
| "from_json (JBool b) n = (PBool b, n)"
| "from_json (JInt i) n = (PInt i, n)"
| "from_json (JFloat z l) n = (PFloat z l, n)"
| "from_json (JStr t) n = (PStr t, n)"
| "from_json (JArr xs) n = (case from_json_list xs (Suc n) of (ys, n') \<Rightarrow> (PList n ys, n'))"
| "from_json (JObj kvs) n =
     (case from_json_pairs kvs (Suc n) of (items, n') \<Rightarrow> (PDict n (build_dict items), n'))"
| "from_json_list [] n = ([], n)"
| "from_json_list (x # xs) n =
     (case from_json x n of (y, n1) \<Rightarrow>
        (case from_json_list xs n1 of (ys, n2) \<Rightarrow> (y # ys, n2)))"
| "from_json_pairs [] n = ([], n)"
| "from_json_pairs ((k, x) # kvs) n =
     (case from_json x n of (y, n1) \<Rightarrow>
        (case from_json_pairs kvs n1 of (items, n2) \<Rightarrow> ((k, y) # items, n2)))"

text \<open>
  \<^verbatim>\<open>copy.deepcopy\<close>: immutable values are returned as they are, every list and
  dictionary is rebuilt as a new object. (The memo that \<^verbatim>\<open>deepcopy\<close> keeps only
  matters for an object reached twice; the decoder above never shares one.)
\<close>

fun deepcopy :: "pyval \<Rightarrow> nat \<Rightarrow> pyval \<times> nat"
  and deepcopy_list :: "pyval list \<Rightarrow> nat \<Rightarrow> pyval list \<times> nat"
  and deepcopy_items :: "(string \<times> pyval) list \<Rightarrow> nat \<Rightarrow> (string \<times> pyval) list \<times> nat" where
  "deepcopy PNone n = (PNone, n)"
| "deepcopy (PBool b) n = (PBool b, n)"
| "deepcopy (PInt i) n = (PInt i, n)"
| "deepcopy (PFloat z l) n = (PFloat z l, n)"
| "deepcopy (PStr t) n = (PStr t, n)"
| "deepcopy (PList a xs) n = (case deepcopy_list xs (Suc n) of (ys, n') \<Rightarrow> (PList n ys, n'))"
| "deepcopy (PDict a kvs) n =
     (case deepcopy_items kvs (Suc n) of (items, n') \<Rightarrow> (PDict n items, n'))"
| "deepcopy_list [] n = ([], n)"
| "deepcopy_list (x # xs) n =
     (case deepcopy x n of (y, n1) \<Rightarrow>
        (case deepcopy_list xs n1 of (ys, n2) \<Rightarrow> (y # ys, n2)))"
| "deepcopy_items [] n = ([], n)"
| "deepcopy_items ((k, x) # kvs) n =
     (case deepcopy x n of (y, n1) \<Rightarrow>
        (case deepcopy_items kvs n1 of (items, n2) \<Rightarrow> ((k, y) # items, n2)))"

text \<open>
  The effect of \<^verbatim>\<open>d[k] = v\<close>, where \<open>d\<close> is the dictionary with identity \<open>a\<close>, on a
  value some variable holds: every occurrence of that dictionary in it is updated.
\<close>

fun assign_at :: "nat \<Rightarrow> string \<Rightarrow> pyval \<Rightarrow> pyval \<Rightarrow> pyval"
  and assign_at_list :: "nat \<Rightarrow> string \<Rightarrow> pyval \<Rightarrow> pyval list \<Rightarrow> pyval list"
  and assign_at_items ::
    "nat \<Rightarrow> string \<Rightarrow> pyval \<Rightarrow> (string \<times> pyval) list \<Rightarrow> (string \<times> pyval) list" where
  "assign_at a k v (PList b xs) = PList b (assign_at_list a k v xs)"
| "assign_at a k v (PDict b kvs) =
     (if b = a then PDict b (dict_set k v (assign_at_items a k v kvs))
      else PDict b (assign_at_items a k v kvs))"
| "assign_at a k v x = x"
| "assign_at_list a k v [] = []"
| "assign_at_list a k v (x # xs) = assign_at a k v x # assign_at_list a k v xs"
| "assign_at_items a k v [] = []"
| "assign_at_items a k v ((k', x) # kvs) = (k', assign_at a k v x) # assign_at_items a k v kvs"

text \<open>The identities of the lists and dictionaries a value contains.\<close>

fun ids_of :: "pyval \<Rightarrow> nat set"
  and ids_of_list :: "pyval list \<Rightarrow> nat set"
  and ids_of_items :: "(string \<times> pyval) list \<Rightarrow> nat set" where
  "ids_of (PList a xs) = insert a (ids_of_list xs)"
| "ids_of (PDict a kvs) = insert a (ids_of_items kvs)"
| "ids_of x = {}"
| "ids_of_list [] = {}"
| "ids_of_list (x # xs) = ids_of x \<union> ids_of_list xs"
| "ids_of_items [] = {}"
| "ids_of_items ((k, x) # kvs) = ids_of x \<union> ids_of_items kvs"

text \<open>What \<^verbatim>\<open>json.dumps\<close> writes for a value (Requests does this for \<^verbatim>\<open>json=\<close>).\<close>

fun to_json :: "pyval \<Rightarrow> json"
  and to_json_list :: "pyval list \<Rightarrow> json list"
  and to_json_items :: "(string \<times> pyval) list \<Rightarrow> (string \<times> json) list" where
  "to_json PNone = JNull"
| "to_json (PBool b) = JBool b"
| "to_json (PInt i) = JInt i"
| "to_json (PFloat z l) = JFloat z l"
| "to_json (PStr t) = JStr t"
| "to_json (PList a xs) = JArr (to_json_list xs)"
| "to_json (PDict a kvs) = JObj (to_json_items kvs)"
| "to_json_list [] = []"
| "to_json_list (x # xs) = to_json x # to_json_list xs"
| "to_json_items [] = []"
| "to_json_items ((k, x) # kvs) = (k, to_json x) # to_json_items kvs"

text \<open>The truth value of an object, as \<^verbatim>\<open>not x\<close> and \<^verbatim>\<open>all([...])\<close> test it.\<close>

fun truthy :: "pyval \<Rightarrow> bool" where
  "truthy PNone = False"
| "truthy (PBool b) = b"
| "truthy (PInt i) = (i \<noteq> 0)"
| "truthy (PFloat z l) = (\<not> z)"
| "truthy (PStr t) = (t \<noteq> [])"
| "truthy (PList a xs) = (xs \<noteq> [])"
| "truthy (PDict a kvs) = (kvs \<noteq> [])"

definition truthy_str :: "string option \<Rightarrow> bool" where
  "truthy_str v = (case v of None \<Rightarrow> False | Some t \<Rightarrow> t \<noteq> [])"

section \<open>The payload loader\<close>

text \<open>
  \<^verbatim>\<open>
  def read_json_data(file_path):
      try:
          with open(file_path, 'r') as json_file:
              data = json.load(json_file)
          return data
      except FileNotFoundError:
          print(f"[ERROR] JSON file not found at: {file_path}")
      except json.JSONDecodeError:
          print(f"[ERROR] Failed to parse JSON from file: {file_path}")
      except Exception as e:
          print(f"[ERROR] An error occurred while reading the JSON file: {e}")
      return None
  \<close>
\<close>

definition read_json_data :: "world \<Rightarrow> string \<Rightarrow> state \<Rightarrow> (exn + pyval) \<times> state" where
  "read_json_data w file_path s =
     (let s1 = emit (OpenFile file_path) s in
      case json_files w file_path of
        JsonLoaded doc \<Rightarrow>
          (case from_json doc (next_id s1) of (data, n) \<Rightarrow> (Inr data, s1\<lparr>next_id := n\<rparr>))
      | JsonRaises (Exn c msg) \<Rightarrow>
          if catches (Only FileNotFoundError) c
          then (Inr PNone, emit (Print (''[ERROR] JSON file not found at: '' @ file_path)) s1)
          else if catches (Only JSONDecodeError) c
          then (Inr PNone,
                emit (Print (''[ERROR] Failed to parse JSON from file: '' @ file_path)) s1)
          else if catches Exception c
          then (Inr PNone,
                emit (Print (''[ERROR] An error occurred while reading the JSON file: '' @ msg)) s1)
          else (Inl (Exn c msg), s1))"

section \<open>The two calls per asset\<close>

text \<open>
  \<^verbatim>\<open>
  def update_asset_status(app_id, asset_id, token, update_data):
      url = f"{API_BASE_URL}/{app_id}/assets/{asset_id}"
      patch_document = []
      for key, value in update_data.items():
          patch_document.append({"op": "replace", "path": f"/{key}", "value": value})
      headers = {'Authorization': f'Bearer {token}', 'Content-Type': 'application/json'}
      try:
          response = requests.patch(url, headers=headers, json=patch_document)
          response.raise_for_status()
          print(f"[INFO] Successfully updated status for asset {asset_id}.")
          return True
      except requests.HTTPError as e:
          print(f"[ERROR] Failed to update asset {asset_id}. HTTP error: {e}")
          try:
              print(f"Response content: {response.json()}")
          except json.JSONDecodeError:
              print(f"Response content: {response.text}")
      except requests.RequestException as e:
          print(f"[ERROR] Network error when updating asset {asset_id}: {e}")
      return False
  \<close>
\<close>

definition patch_operation :: "string \<Rightarrow> pyval \<Rightarrow> json" where
  "patch_operation key v =
     JObj [(''op'', JStr ''replace''), (''path'', JStr (''/'' @ key)), (''value'', to_json v)]"

text \<open>The loop over \<^verbatim>\<open>update_data.items()\<close>, appending to \<open>patch_document\<close>.\<close>

fun build_patch_document :: "(string \<times> pyval) list \<Rightarrow> json list \<Rightarrow> json list" where
  "build_patch_document [] patch_document = patch_document"
| "build_patch_document ((key, v) # items) patch_document =
     build_patch_document items (patch_document @ [patch_operation key v])"

text \<open>\<^verbatim>\<open>x.items()\<close>: only a dictionary has it.\<close>

definition dict_items :: "pyval \<Rightarrow> exn + (string \<times> pyval) list" where
  "dict_items x = (case x of
       PDict a kvs \<Rightarrow> Inr kvs
     | _ \<Rightarrow> Inl (Exn AttributeError ''object has no attribute items''))"

definition asset_url :: "world \<Rightarrow> string option \<Rightarrow> string \<Rightarrow> string" where
  "asset_url w app_id asset_id =
     py_str (API_BASE_URL w) @ ''/'' @ py_str app_id @ ''/assets/'' @ asset_id"

definition update_request ::
  "world \<Rightarrow> string option \<Rightarrow> string \<Rightarrow> string option \<Rightarrow> (string \<times> pyval) list
     \<Rightarrow> http_request" where
  "update_request w app_id asset_id token items =
     \<lparr>req_method = PATCH, req_url = asset_url w app_id asset_id,
      req_headers = [(''Authorization'', ''Bearer '' @ py_str token),
                     (''Content-Type'', ''application/json'')],
      req_json = JArr (build_patch_document items [])\<rparr>"

definition update_asset_status ::
  "world \<Rightarrow> string option \<Rightarrow> string \<Rightarrow> string option \<Rightarrow> pyval \<Rightarrow> state
     \<Rightarrow> (exn + bool) \<times> state" where
  "update_asset_status w app_id asset_id token update_data s =
     (case dict_items update_data of
        Inl e \<Rightarrow> (Inl e, s)
      | Inr items \<Rightarrow>
          (case request w (update_request w app_id asset_id token items) s of
             (Responded r, s1) \<Rightarrow>
               if \<not> is_error_status (status_code r)
               then (Inr True,
                     emit (Print (''[INFO] Successfully updated status for asset ''
                                  @ asset_id @ ''.'')) s1)
               else \<comment> \<open>\<open>raise_for_status\<close> raised; \<^verbatim>\<open>except requests.HTTPError\<close>\<close>
                 (let s2 = emit (Print (''[ERROR] Failed to update asset '' @ asset_id
                                        @ ''. HTTP error: '' @ error_message r)) s1
                  in (Inr False,
                      emit (Print (''Response content: ''
                                   @ (case json_repr r of Some j \<Rightarrow> j | None \<Rightarrow> body_text r))) s2))
           | (Raised t msg, s1) \<Rightarrow>
               if catches (Only HTTPError) (Transport t) then (Inr False, s1)
               else if catches RequestException (Transport t)
               then (Inr False,
                     emit (Print (''[ERROR] Network error when updating asset '' @ asset_id
                                  @ '': '' @ msg)) s1)
               else (Inl (Exn (Transport t) msg), s1)))"

text \<open>
  \<^verbatim>\<open>
  def post_asset_feed_entry(app_id, asset_id, token, comment_data):
      url = f"{API_BASE_URL}/{app_id}/assets/{asset_id}/feed"
      headers = {'Content-Type': 'application/json', 'Authorization': f'Bearer {token}'}
      try:
          response = requests.post(url, headers=headers, json=comment_data)
          response.raise_for_status()
          print(f"[INFO] Feed entry posted for asset {asset_id}.")
          return True
      except requests.HTTPError as e:
          print(f"[ERROR] Failed to post feed entry for asset {asset_id}. HTTP error: {e}")
      except requests.RequestException as e:
          print(f"[ERROR] Network error when posting feed entry for {asset_id}: {e}")
      return False
  \<close>
\<close>

definition feed_request ::
  "world \<Rightarrow> string option \<Rightarrow> string \<Rightarrow> string option \<Rightarrow> pyval \<Rightarrow> http_request" where
  "feed_request w app_id asset_id token comment_data =
     \<lparr>req_method = POST, req_url = asset_url w app_id asset_id @ ''/feed'',
      req_headers = [(''Content-Type'', ''application/json''),
                     (''Authorization'', ''Bearer '' @ py_str token)],
      req_json = to_json comment_data\<rparr>"

definition post_asset_feed_entry ::
  "world \<Rightarrow> string option \<Rightarrow> string \<Rightarrow> string option \<Rightarrow> pyval \<Rightarrow> state
     \<Rightarrow> (exn + bool) \<times> state" where
  "post_asset_feed_entry w app_id asset_id token comment_data s =
     (case request w (feed_request w app_id asset_id token comment_data) s of
        (Responded r, s1) \<Rightarrow>
          if \<not> is_error_status (status_code r)
          then (Inr True, emit (Print (''[INFO] Feed entry posted for asset '' @ asset_id @ ''.'')) s1)
          else (Inr False,
                emit (Print (''[ERROR] Failed to post feed entry for asset '' @ asset_id
                             @ ''. HTTP error: '' @ error_message r)) s1)
      | (Raised t msg, s1) \<Rightarrow>
          if catches (Only HTTPError) (Transport t) then (Inr False, s1)
          else if catches RequestException (Transport t)
          then (Inr False,
                emit (Print (''[ERROR] Network error when posting feed entry for '' @ asset_id
                             @ '': '' @ msg)) s1)
          else (Inl (Exn (Transport t) msg), s1))"

section \<open>The disposal workflow\<close>

text \<open>A number inside an f-string.\<close>

definition digit_char :: "nat \<Rightarrow> char" where
  "digit_char d = char_of (48 + d)"

function str_nat :: "nat \<Rightarrow> string" where
  "str_nat n = (if n < 10 then [digit_char n] else str_nat (n div 10) @ [digit_char (n mod 10)])"
  by pat_completeness auto
termination
  by (relation "measure (\<lambda>n. n)") auto

declare str_nat.simps [simp del]

definition newline :: char where
  "newline = CHR 0x0A"

definition apostrophe :: char where
  "apostrophe = CHR 0x27"

definition CSV_FILENAME :: string where
  "CSV_FILENAME = ''test1.csv''"

definition DISPOSED_STATUS_JSON :: string where
  "DISPOSED_STATUS_JSON = ''DisposedStatus.json''"

definition COMMENT_JSON :: string where
  "COMMENT_JSON = ''Comment.json''"

text \<open>
  \<^verbatim>\<open>current_payload['serialNumber'] = serial_number\<close>: the identity of the dictionary
  assigned into, or the \<open>TypeError\<close> of a value that takes no item assignment with a
  string key (a list, a string, a number).
\<close>

definition setitem_target :: "pyval \<Rightarrow> exn + nat" where
  "setitem_target x = (case x of
       PDict a kvs \<Rightarrow> Inr a
     | _ \<Rightarrow> Inl (Exn TypeError ''object does not support item assignment''))"

text \<open>
  The body of the \<^verbatim>\<open>for\<close> loop of \<open>main\<close>, lines 164 to 180:
  \<^verbatim>\<open>
      for i, asset in enumerate(assets_to_process, 1):
          asset_id = asset['ID']
          serial_number = asset['SerialNumber']
          print(f"\n[INFO] Processing asset ID {asset_id} ({i}/{len(assets_to_process)})...")
          current_payload = deepcopy(status_update_payload)
          current_payload['serialNumber'] = serial_number
          update_successful = update_asset_status(APP_ID, asset_id, token, current_payload)
          if update_successful:
              time.sleep(1)
              post_asset_feed_entry(APP_ID, asset_id, token, comment_payload)
          if i < len(assets_to_process):
              time.sleep(1)
  \<close>
  The variables \<open>status_update_payload\<close> and \<open>comment_payload\<close> are threaded through:
  the assignment acts on whatever they share with \<open>current_payload\<close>.
\<close>

definition processing_message :: "string \<Rightarrow> nat \<Rightarrow> nat \<Rightarrow> string" where
  "processing_message asset_id i n_total =
     newline # ''[INFO] Processing asset ID '' @ asset_id @ '' (''
       @ str_nat i @ ''/'' @ str_nat n_total @ '')...''"

definition process_asset ::
  "world \<Rightarrow> string option \<Rightarrow> nat \<Rightarrow> nat \<Rightarrow> asset \<Rightarrow> pyval \<Rightarrow> pyval \<Rightarrow> state
     \<Rightarrow> (exn + pyval \<times> pyval) \<times> state" where
  "process_asset w token n_total i a status_update_payload comment_payload s =
     (let asset_id = ID a;
          serial_number = SerialNumber a;
          s1 = emit (Print (processing_message asset_id i n_total)) s
      in case deepcopy status_update_payload (next_id s1) of (copy, n) \<Rightarrow>
        (let s2 = s1\<lparr>next_id := n\<rparr> in
         case setitem_target copy of
           Inl e \<Rightarrow> (Inl e, s2)
         | Inr target \<Rightarrow>
             (let current_payload = assign_at target ''serialNumber'' (PStr serial_number) copy;
                  status' = assign_at target ''serialNumber'' (PStr serial_number)
                              status_update_payload;
                  comment' = assign_at target ''serialNumber'' (PStr serial_number)
                               comment_payload
              in case update_asset_status w (APP_ID w) asset_id token current_payload s2 of
                   (Inl e, s3) \<Rightarrow> (Inl e, s3)
                 | (Inr update_successful, s3) \<Rightarrow>
                     (case (if update_successful
                            then post_asset_feed_entry w (APP_ID w) asset_id token comment'
                                   (emit (Sleep 1) s3)
                            else (Inr False, s3)) of
                        (Inl e, s4) \<Rightarrow> (Inl e, s4)
                      | (Inr posted, s4) \<Rightarrow>
                          (Inr (status', comment'),
                           if i < n_total then emit (Sleep 1) s4 else s4)))))"

fun process_assets ::
  "world \<Rightarrow> string option \<Rightarrow> nat \<Rightarrow> nat \<Rightarrow> asset list \<Rightarrow> pyval \<Rightarrow> pyval \<Rightarrow> state
     \<Rightarrow> (exn + pyval \<times> pyval) \<times> state" where
  "process_assets w token n_total i [] status_update_payload comment_payload s =
     (Inr (status_update_payload, comment_payload), s)"
| "process_assets w token n_total i (a # rest) status_update_payload comment_payload s =
     (case process_asset w token n_total i a status_update_payload comment_payload s of
        (Inl e, s1) \<Rightarrow> (Inl e, s1)
      | (Inr (status', comment'), s1) \<Rightarrow>
          process_assets w token n_total (Suc i) rest status' comment' s1)"

text \<open>
  \<^verbatim>\<open>
  def main():
      print("--- Starting Asset Disposer ---")
      if not all([APP_ID, AUTH_URL, API_BASE_URL, USERNAME, PASSWORD]):
          print("[FATAL] Required environment variables are not set. Please check your .env file.")
          return
      token = get_bearer_token(USERNAME, PASSWORD)
      if not token:
          print("[FATAL] Exiting due to authentication failure.")
          return
      assets_to_process = read_ids_from_csv(CSV_FILENAME)
      if not assets_to_process:
          print(f"[WARNING] No valid asset entries found in '{CSV_FILENAME}'. Exiting.")
          return
      print(f"[INFO] Found {len(assets_to_process)} valid asset entries to process.")
      status_update_payload = read_json_data(DISPOSED_STATUS_JSON)
      comment_payload = read_json_data(COMMENT_JSON)
      if not status_update_payload or not comment_payload:
          print("[FATAL] Exiting due to missing or invalid JSON data.")
          return
      print("\n[INFO] Starting Mass Disposing...")
      for i, asset in enumerate(assets_to_process, 1): ...
      print("\n--- Processing Complete ---")
  \<close>
  The part of \<open>main\<close> after a token has been obtained comes first.
\<close>

definition dispose :: "world \<Rightarrow> string option \<Rightarrow> state \<Rightarrow> (exn + unit) \<times> state" where
  "dispose w token s1 =
     (case read_ids_from_csv w CSV_FILENAME s1 of
        (Inl e, s2) \<Rightarrow> (Inl e, s2)
      | (Inr assets_to_process, s2) \<Rightarrow>
          if assets_to_process = []
          then (Inr (),
                emit (Print (''[WARNING] No valid asset entries found in '' @ [apostrophe]
                             @ CSV_FILENAME @ [apostrophe] @ ''. Exiting.'')) s2)
          else
            (let s3 = emit (Print (''[INFO] Found '' @ str_nat (length assets_to_process)
                                   @ '' valid asset entries to process.'')) s2
             in case read_json_data w DISPOSED_STATUS_JSON s3 of
                  (Inl e, s4) \<Rightarrow> (Inl e, s4)
                | (Inr status_update_payload, s4) \<Rightarrow>
                    (case read_json_data w COMMENT_JSON s4 of
                       (Inl e, s5) \<Rightarrow> (Inl e, s5)
                     | (Inr comment_payload, s5) \<Rightarrow>
                         if \<not> truthy status_update_payload \<or> \<not> truthy comment_payload
                         then (Inr (),
                               emit (Print ''[FATAL] Exiting due to missing or invalid JSON data.'')
                                 s5)
                         else
                           (let s6 = emit (Print (newline # ''[INFO] Starting Mass Disposing...''))
                                       s5
                            in case process_assets w token (length assets_to_process) 1
                                      assets_to_process status_update_payload comment_payload s6 of
                                 (Inl e, s7) \<Rightarrow> (Inl e, s7)
                               | (Inr final, s7) \<Rightarrow>
                                   (Inr (),
                                    emit (Print (newline # ''--- Processing Complete ---'')) s7)))))"

definition main :: "world \<Rightarrow> (exn + unit) \<times> state" where
  "main w =
     (let s0 = emit (Print ''--- Starting Asset Disposer ---'') initial in
      if \<not> (truthy_str (APP_ID w) \<and> truthy_str (AUTH_URL w) \<and> truthy_str (API_BASE_URL w)
             \<and> truthy_str (USERNAME w) \<and> truthy_str (PASSWORD w))
      then (Inr (),
            emit (Print (''[FATAL] Required environment variables are not set. ''
                         @ ''Please check your .env file.'')) s0)
      else
        (case get_bearer_token w (USERNAME w) (PASSWORD w) s0 of
           (Inl e, s1) \<Rightarrow> (Inl e, s1)
         | (Inr token, s1) \<Rightarrow>
             if \<not> truthy_str token
             then (Inr (), emit (Print ''[FATAL] Exiting due to authentication failure.'') s1)
             else dispose w token s1))"

section \<open>Definitions used to state the properties\<close>

subsection \<open>Observing a trace\<close>

text \<open>The HTTP exchanges of a trace, in order.\<close>

fun http_events :: "event list \<Rightarrow> (http_request \<times> http_outcome) list" where
  "http_events [] = []"
| "http_events (Http r out # es) = (r, out) # http_events es"
| "http_events (e # es) = http_events es"

text \<open>A call succeeded when a response came back and \<^verbatim>\<open>raise_for_status\<close> accepts it.\<close>

definition succeeded :: "http_outcome \<Rightarrow> bool" where
  "succeeded out = (case out of
       Responded r \<Rightarrow> \<not> is_error_status (status_code r)
     | Raised t msg \<Rightarrow> False)"

subsection \<open>The specification's reading of the token\<close>

text \<open>
  The specification asks to "strip exactly one leading/trailing quote pair": a body that
  starts and ends with a quote loses that one pair and nothing more.
\<close>

definition strip_one_quote_pair :: "string \<Rightarrow> string" where
  "strip_one_quote_pair t =
     (if 2 \<le> length t \<and> hd t = quote \<and> last t = quote then butlast (tl t) else t)"

subsection \<open>Example inputs\<close>

definition response :: "nat \<Rightarrow> string \<Rightarrow> http_response" where
  "response code body =
     \<lparr>status_code = code, body_text = body, error_message = ''HTTP error'', json_repr = None\<rparr>"

text \<open>
  A world with all five variables set, the given network, the given contents of
  \<^verbatim>\<open>test1.csv\<close> and the given two templates; every other file is missing.
\<close>

definition demo_world ::
  "(event list \<Rightarrow> http_request \<Rightarrow> http_outcome) \<Rightarrow> csv_source \<Rightarrow> json \<Rightarrow> json \<Rightarrow> world" where
  "demo_world net csv status comment =
     \<lparr>APP_ID = Some ''app'', AUTH_URL = Some ''https://auth'', API_BASE_URL = Some ''https://api'',
      USERNAME = Some ''user'', PASSWORD = Some ''secret'',
      network = net,
      csv_files = (\<lambda>p. if p = CSV_FILENAME then csv else CsvOpenRaises (Exn FileNotFoundError p)),
      json_files = (\<lambda>p. if p = DISPOSED_STATUS_JSON then JsonLoaded status
                         else if p = COMMENT_JSON then JsonLoaded comment
                         else JsonRaises (Exn FileNotFoundError p))\<rparr>"

text \<open>A network on which every call fails to connect.\<close>

definition offline_world :: world where
  "offline_world = demo_world (\<lambda>tr r. Raised ConnectionError ''connection refused'')
     (CsvOpened [] None) (JObj []) (JObj [])"

text \<open>An authentication server that answers 200 with the given body.\<close>

definition token_world :: "string \<Rightarrow> world" where
  "token_world body = demo_world (\<lambda>tr r. Responded (response 200 body))
     (CsvOpened [] None) (JObj []) (JObj [])"

subsection \<open>The specification's reading of the input reader\<close>

text \<open>
  The specification keeps a row "only if both are non-empty and neither equals the
  case-insensitive sentinel not found in itsm", where both are the trimmed \<open>ID\<close> and
  the trimmed \<open>Serial Number\<close>. Equality up to case is equality of the lower-cased texts.
\<close>

definition lower_char :: "char \<Rightarrow> char" where
  "lower_char c = (let n = (of_char c :: nat) in
     if 65 \<le> n \<and> n \<le> 90 then char_of (n + 32) else c)"

definition lower :: "string \<Rightarrow> string" where
  "lower t = map lower_char t"

definition equals_ignoring_case :: "string \<Rightarrow> string \<Rightarrow> bool" where
  "equals_ignoring_case t u = (lower t = lower u)"

definition sentinel :: string where
  "sentinel = ''not found in itsm''"

text \<open>The value a row has under a column, if it has one.\<close>

definition field :: "csv_row \<Rightarrow> string \<Rightarrow> string option" where
  "field row key = (case map_of row key of Some (Some v) \<Rightarrow> Some v | _ \<Rightarrow> None)"

definition spec_record :: "csv_row \<Rightarrow> asset option" where
  "spec_record row =
     (case (field row ''ID'', field row ''Serial Number'') of
        (Some i, Some n) \<Rightarrow>
          if strip i \<noteq> [] \<and> strip n \<noteq> []
             \<and> \<not> equals_ignoring_case (strip i) sentinel
             \<and> \<not> equals_ignoring_case (strip n) sentinel
          then Some \<lparr>ID = strip i, SerialNumber = strip n\<rparr>
          else None
      | _ \<Rightarrow> None)"

text \<open>The records of the rows the specification keeps, in file order.\<close>

definition spec_records :: "csv_row list \<Rightarrow> asset list" where
  "spec_records rows = List.map_filter spec_record rows"

text \<open>The three rows of the specification's example.\<close>

definition three_rows :: "csv_row list" where
  "three_rows =
     [[(''ID'', Some ''1''), (''Serial Number'', Some ''ABC'')],
      [(''ID'', Some ''2''), (''Serial Number'', Some ''NOT FOUND IN ITSM'')],
      [(''ID'', Some []), (''Serial Number'', Some ''XYZ'')]]"

text \<open>
  A file whose second line has an \<open>ID\<close> and nothing else: the reader fills the missing
  \<open>Serial Number\<close> with \<^verbatim>\<open>None\<close>.
\<close>

definition short_row_file :: "csv_row list" where
  "short_row_file =
     [[(''ID'', Some ''1''), (''Serial Number'', Some ''ABC'')],
      [(''ID'', Some ''2''), (''Serial Number'', None)]]"

definition csv_world :: "csv_source \<Rightarrow> world" where
  "csv_world csv = demo_world (\<lambda>tr r. Raised ConnectionError ''connection refused'')
     csv (JObj []) (JObj [])"

subsection \<open>Reading a JSON-Patch document\<close>

text \<open>The \<open>path\<close> member of a JSON object, when it has one that is a string.\<close>

fun path_of :: "json \<Rightarrow> string option" where
  "path_of (JObj members) = (case map_of members ''path'' of Some (JStr p) \<Rightarrow> Some p | _ \<Rightarrow> None)"
| "path_of j = None"

definition sample_payload :: "(string \<times> pyval) list" where
  "sample_payload = [(''statusId'', PInt 7), (''serialNumber'', PStr ''ABC'')]"

subsection \<open>The calls of the loop\<close>

fun is_dict :: "pyval \<Rightarrow> bool" where
  "is_dict (PDict a kvs) = True"
| "is_dict x = False"

text \<open>
  The invariant of the data model, as a check on the HTTP calls of the loop against the
  asset URLs in order: every asset has its PATCH; a PATCH that succeeded is directly
  followed by the feed POST of the same asset; after a PATCH that failed, the next call
  (if any) is the PATCH of the next asset.
\<close>

fun conforms :: "string list \<Rightarrow> (http_request \<times> http_outcome) list \<Rightarrow> bool" where
  "conforms [] hs = (hs = [])"
| "conforms (u # us) [] = False"
| "conforms (u # us) ((r, out) # hs) =
     (req_method r = PATCH \<and> req_url r = u
      \<and> (if succeeded out
          then (case hs of
                  [] \<Rightarrow> False
                | (r2, out2) # hs' \<Rightarrow>
                    req_method r2 = POST \<and> req_url r2 = u @ ''/feed'' \<and> conforms us hs')
          else conforms us hs))"

definition is_update :: "http_request \<times> http_outcome \<Rightarrow> bool" where
  "is_update h = (req_method (fst h) = PATCH)"

text \<open>
  The JSON-Patch document of a template (its items as JSON) in which \<open>serialNumber\<close> has
  been set: an existing \<open>serialNumber\<close> is overwritten in place, a new one is added last,
  every other item is as in the template.
\<close>

definition expected_patch_body :: "(string \<times> json) list \<Rightarrow> string \<Rightarrow> json" where
  "expected_patch_body template serial_number =
     JArr (map (\<lambda>(k, j). JObj [(''op'', JStr ''replace''), (''path'', JStr (''/'' @ k)),
                               (''value'', j)])
            (dict_set ''serialNumber'' (JStr serial_number) template))"

text \<open>
  An example run: three assets, and a server that answers 500 to the update of asset 2
  and 200 to every other call.
\<close>

definition three_assets :: "asset list" where
  "three_assets =
     [\<lparr>ID = ''1'', SerialNumber = ''ABC''\<rparr>, \<lparr>ID = ''2'', SerialNumber = ''DEF''\<rparr>,
      \<lparr>ID = ''3'', SerialNumber = ''XYZ''\<rparr>]"

definition flaky_network :: "event list \<Rightarrow> http_request \<Rightarrow> http_outcome" where
  "flaky_network tr r =
     (if req_method r = PATCH \<and> req_url r = ''https://api/app/assets/2''
      then Responded (response 500 ''Server Error'')
      else Responded (response 200 (quote # ''tok'' @ [quote])))"

definition status_document :: json where
  "status_document = JObj [(''statusId'', JInt 7), (''tags'', JArr [JStr ''disposed''])]"

definition comment_document :: json where
  "comment_document = JObj [(''body'', JStr ''Disposed'')]"

definition flaky_world :: world where
  "flaky_world = demo_world flaky_network
     (CsvOpened [[(''ID'', Some ''1''), (''Serial Number'', Some ''ABC'')],
                 [(''ID'', Some ''2''), (''Serial Number'', Some ''DEF'')],
                 [(''ID'', Some ''3''), (''Serial Number'', Some ''XYZ'')]] None)
     status_document comment_document"

text \<open>The two templates as \<open>read_json_data\<close> loads them, and the state after loading.\<close>

definition sample_template :: pyval where
  "sample_template = PDict 0 [(''statusId'', PInt 7), (''tags'', PList 1 [PStr ''disposed''])]"

definition sample_comment :: pyval where
  "sample_comment = PDict 2 [(''body'', PStr ''Disposed'')]"

definition loop_state :: state where
  "loop_state = \<lparr>trace = [], next_id = 3\<rparr>"

definition call_summary :: "http_request \<times> http_outcome \<Rightarrow> http_method \<times> string \<times> bool" where
  "call_summary h = (req_method (fst h), req_url (fst h), succeeded (snd h))"

subsection \<open>The steps of a run\<close>

text \<open>The outside actions of a trace, without the console lines and the sleeps.\<close>

fun io_events :: "event list \<Rightarrow> event list" where
  "io_events [] = []"
| "io_events (Print m # es) = io_events es"
| "io_events (Sleep n # es) = io_events es"
| "io_events (e # es) = e # io_events es"

text \<open>The state in which \<open>main\<close> calls \<open>get_bearer_token\<close>.\<close>

definition start_state :: state where
  "start_state = emit (Print ''--- Starting Asset Disposer ---'') initial"

definition environment_set :: "world \<Rightarrow> bool" where
  "environment_set w =
     (truthy_str (APP_ID w) \<and> truthy_str (AUTH_URL w) \<and> truthy_str (API_BASE_URL w)
      \<and> truthy_str (USERNAME w) \<and> truthy_str (PASSWORD w))"

definition fatal_json :: event where
  "fatal_json = Print ''[FATAL] Exiting due to missing or invalid JSON data.''"

definition is_auth_call :: "world \<Rightarrow> event \<Rightarrow> bool" where
  "is_auth_call w e = (case e of
       Http r out \<Rightarrow> r = auth_request w (USERNAME w) (PASSWORD w)
     | _ \<Rightarrow> False)"

text \<open>
  The order of the specification's overview, "read input, authenticate": the input file
  is opened, and the authentication call comes after that.
\<close>

fun auth_after_input :: "world \<Rightarrow> event list \<Rightarrow> bool" where
  "auth_after_input w [] = False"
| "auth_after_input w (e # es) =
     (if e = OpenFile CSV_FILENAME then list_ex (is_auth_call w) es else auth_after_input w es)"

text \<open>A server that refuses the credentials, and a run whose status template is \<^verbatim>\<open>{}\<close>.\<close>

definition unauthorized_world :: world where
  "unauthorized_world = demo_world (\<lambda>tr r. Responded (response 401 ''denied''))
     (CsvOpened three_rows None) status_document comment_document"

definition empty_template_world :: world where
  "empty_template_world = demo_world flaky_network
     (CsvOpened three_rows None) (JObj []) comment_document"

text \<open>
  The same file with the second line written \<^verbatim>\<open>2,\<close>: the serial number is there and
  empty.
\<close>

definition empty_field_file :: "csv_row list" where
  "empty_field_file =
     [[(''ID'', Some ''1''), (''Serial Number'', Some ''ABC'')],
      [(''ID'', Some ''2''), (''Serial Number'', Some [])]]"

subsection \<open>The conditions that decide how far a run gets\<close>

definition as_event :: "http_request \<times> http_outcome \<Rightarrow> event" where
  "as_event h = Http (fst h) (snd h)"

text \<open>The truth value Python gives the value that \<^verbatim>\<open>json.load\<close> returns for a document.\<close>

fun json_truthy :: "json \<Rightarrow> bool" where
  "json_truthy JNull = False"
| "json_truthy (JBool b) = b"
| "json_truthy (JInt i) = (i \<noteq> 0)"
| "json_truthy (JFloat z l) = (\<not> z)"
| "json_truthy (JStr t) = (t \<noteq> [])"
| "json_truthy (JArr xs) = (xs \<noteq> [])"
| "json_truthy (JObj kvs) = (kvs \<noteq> [])"

fun json_is_object :: "json \<Rightarrow> bool" where
  "json_is_object (JObj kvs) = True"
| "json_is_object j = False"

text \<open>A file that loads and holds a truthy document; a file that loads and holds an object.\<close>

definition loaded_truthy :: "world \<Rightarrow> string \<Rightarrow> bool" where
  "loaded_truthy w p =
     (case json_files w p of JsonLoaded doc \<Rightarrow> json_truthy doc | JsonRaises e \<Rightarrow> False)"

definition loaded_object :: "world \<Rightarrow> string \<Rightarrow> bool" where
  "loaded_object w p =
     (case json_files w p of JsonLoaded doc \<Rightarrow> json_is_object doc | JsonRaises e \<Rightarrow> False)"

text \<open>
  The templates let the loop run: both pass the test of line 158, and the status template
  is a dictionary, so that line 171 can assign into its copy.
\<close>

definition templates_usable :: "world \<Rightarrow> bool" where
  "templates_usable w =
     (loaded_truthy w DISPOSED_STATUS_JSON \<and> loaded_truthy w COMMENT_JSON
      \<and> loaded_object w DISPOSED_STATUS_JSON)"

text \<open>The records the input reader returns for \<^verbatim>\<open>test1.csv\<close>.\<close>

definition records_read :: "world \<Rightarrow> asset list" where
  "records_read w =
     (case read_ids_from_csv_try w CSV_FILENAME of Inl e \<Rightarrow> [] | Inr assets \<Rightarrow> assets)"

text \<open>The call of \<open>get_bearer_token\<close> in \<open>main\<close> returns a non-empty token.\<close>

definition token_obtained :: "world \<Rightarrow> bool" where
  "token_obtained w =
     (case fst (get_bearer_token w (USERNAME w) (PASSWORD w) start_state) of
        Inr (Some t) \<Rightarrow> t \<noteq> []
      | _ \<Rightarrow> False)"

text \<open>A server that answers every call with status 304 and a quoted token as body.\<close>

definition redirect_world :: world where
  "redirect_world = demo_world (\<lambda>tr r. Responded (response 304 (quote # ''tok'' @ [quote])))
     (CsvOpened three_rows None) status_document comment_document"

section \<open>Properties of the authenticator\<close>

lemma takeWhile_is_replicate:
  "takeWhile (\<lambda>x. x = c) xs = replicate (length (takeWhile (\<lambda>x. x = c) xs)) c"
  by (induction xs) auto

lemma strip_chars_decompose:
  "\<exists>m n. t = replicate m c @ strip_chars (\<lambda>x. x = c) t @ replicate n c"
proof -
  let ?p = "\<lambda>x. x = c"
  let ?d = "dropWhile ?p t"
  have a: "t = takeWhile ?p t @ ?d" by simp
  have "rev (rev ?d) = rev (takeWhile ?p (rev ?d) @ dropWhile ?p (rev ?d))"
    by (simp only: takeWhile_dropWhile_id)
  then have c: "?d = strip_chars ?p t @ rev (takeWhile ?p (rev ?d))"
    by (simp only: rev_append rev_rev_ident strip_chars_def)
  have d: "rev (takeWhile ?p (rev ?d)) = replicate (length (takeWhile ?p (rev ?d))) c"
    using takeWhile_is_replicate [of c "rev ?d"] by (metis rev_replicate)
  show ?thesis
    using a c d takeWhile_is_replicate [of c t] by metis
qed

lemma strip_chars_ends:
  assumes ne: "strip_chars p t \<noteq> []"
  shows "\<not> p (hd (strip_chars p t)) \<and> \<not> p (last (strip_chars p t))"
proof -
  let ?r = "dropWhile p (rev (dropWhile p t))"
  from ne have r: "?r \<noteq> []" by (simp add: strip_chars_def)
  then have l: "\<not> p (hd ?r)" by (rule hd_dropWhile)
  have "last (strip_chars p t) = hd ?r" using r by (simp add: strip_chars_def last_rev)
  with l have 1: "\<not> p (last (strip_chars p t))" by simp
  have "hd (strip_chars p t) = last ?r" using r by (simp add: strip_chars_def hd_rev)
  moreover have "last ?r = last (rev (dropWhile p t))" using r
    by (metis last_appendR takeWhile_dropWhile_id)
  ultimately have "hd (strip_chars p t) = hd (dropWhile p t)"
    using r by (metis last_rev)
  moreover have "dropWhile p t \<noteq> []" using r by (metis dropWhile.simps(1) rev.simps(1))
  ultimately have "\<not> p (hd (strip_chars p t))" using hd_dropWhile by metis
  with 1 show ?thesis by simp
qed

lemma get_bearer_token_success:
  assumes "network w (trace s) (auth_request w username password) = Responded r"
    and "\<not> is_error_status (status_code r)"
  shows "get_bearer_token w username password s =
           (Inr (Some (strip_chars (\<lambda>c. c = quote) (body_text r))),
            emit (Print ''[INFO] Authenticated successfully.'')
              (emit (Http (auth_request w username password) (Responded r)) s))"
  using assms
  by (simp add: get_bearer_token_def get_bearer_token_try_def request_def Let_def)

text \<open>
  C3 (as amended). On HTTP success the token is the response body without its leading and
  trailing quote characters, all of them: the body is some quotes, then the token, then
  some quotes, and the token neither starts nor ends with a quote.
\<close>

theorem get_bearer_token_strips_all_quotes:
  assumes "network w (trace s) (auth_request w username password) = Responded r"
    and "\<not> is_error_status (status_code r)"
  shows "\<exists>token m n.
           fst (get_bearer_token w username password s) = Inr (Some token)
           \<and> body_text r = replicate m quote @ token @ replicate n quote
           \<and> (token = [] \<or> (hd token \<noteq> quote \<and> last token \<noteq> quote))"
proof -
  let ?token = "strip_chars (\<lambda>c. c = quote) (body_text r)"
  have 1: "fst (get_bearer_token w username password s) = Inr (Some ?token)"
    using get_bearer_token_success [OF assms] by simp
  obtain m n where 2: "body_text r = replicate m quote @ ?token @ replicate n quote"
    using strip_chars_decompose [of "body_text r" quote] by blast
  have 3: "?token = [] \<or> (hd ?token \<noteq> quote \<and> last ?token \<noteq> quote)"
    using strip_chars_ends [of "\<lambda>c. c = quote" "body_text r"] by blast
  from 1 2 3 show ?thesis by blast
qed

theorem get_bearer_token_strips_all_quotes_witness:
  "network (token_world (quote # ''tok'' @ [quote])) (trace initial)
       (auth_request (token_world (quote # ''tok'' @ [quote])) (Some ''user'') (Some ''secret''))
     = Responded (response 200 (quote # ''tok'' @ [quote]))
   \<and> \<not> is_error_status (status_code (response 200 (quote # ''tok'' @ [quote])))
   \<and> (\<exists>token m n.
         fst (get_bearer_token (token_world (quote # ''tok'' @ [quote])) (Some ''user'')
                (Some ''secret'') initial) = Inr (Some token)
         \<and> body_text (response 200 (quote # ''tok'' @ [quote]))
             = replicate m quote @ token @ replicate n quote
         \<and> (token = [] \<or> (hd token \<noteq> quote \<and> last token \<noteq> quote)))"
proof -
  have a: "network (token_world (quote # ''tok'' @ [quote])) (trace initial)
       (auth_request (token_world (quote # ''tok'' @ [quote])) (Some ''user'') (Some ''secret''))
     = Responded (response 200 (quote # ''tok'' @ [quote]))"
    by (simp add: token_world_def demo_world_def)
  have b: "\<not> is_error_status (status_code (response 200 (quote # ''tok'' @ [quote])))"
    by (simp add: is_error_status_def response_def)
  from a b get_bearer_token_strips_all_quotes [OF a b] show ?thesis by blast
qed

text \<open>
  C3 as stated fails: the body \<^verbatim>\<open>""abc""\<close> loses both pairs of quotes, where removing
  exactly one pair would leave \<^verbatim>\<open>"abc"\<close>.
\<close>

theorem get_bearer_token_one_pair_counterexample:
  "fst (get_bearer_token (token_world (quote # quote # ''abc'' @ [quote, quote]))
          (Some ''user'') (Some ''secret'') initial) = Inr (Some ''abc'')
   \<and> strip_one_quote_pair (quote # quote # ''abc'' @ [quote, quote]) = quote # ''abc'' @ [quote]
   \<and> fst (get_bearer_token (token_world (quote # quote # ''abc'' @ [quote, quote]))
          (Some ''user'') (Some ''secret'') initial)
       \<noteq> Inr (Some (strip_one_quote_pair (quote # quote # ''abc'' @ [quote, quote])))"
  by (simp add: get_bearer_token_def get_bearer_token_try_def request_def Let_def
      token_world_def demo_world_def response_def is_error_status_def strip_chars_def
      strip_one_quote_pair_def quote_def)

text \<open>
  C4. The claim asks that a network error ends in the failure signal \<^verbatim>\<open>None\<close>. The only
  handler of \<open>get_bearer_token\<close> is \<^verbatim>\<open>except requests.HTTPError\<close>, so a connection error
  leaves the function as an exception.
\<close>

theorem get_bearer_token_connection_error_escapes:
  "fst (get_bearer_token offline_world (Some ''user'') (Some ''secret'') initial)
     = Inl (Exn (Transport ConnectionError) ''connection refused'')"
  by (simp add: get_bearer_token_def get_bearer_token_try_def request_def offline_world_def
      demo_world_def Let_def)

section \<open>Properties of the input reader\<close>

lemma of_char_upper_char:
  "(of_char (upper_char c) :: nat) =
     (if 97 \<le> (of_char c :: nat) \<and> (of_char c :: nat) \<le> 122 then of_char c - 32 else of_char c)"
  by (auto simp: upper_char_def Let_def intro!: mod_less)

lemma of_char_lower_char:
  "(of_char (lower_char c) :: nat) =
     (if 65 \<le> (of_char c :: nat) \<and> (of_char c :: nat) \<le> 90 then of_char c + 32 else of_char c)"
  by (auto simp: lower_char_def Let_def intro!: mod_less)

lemma case_fold_nat:
  fixes n m :: nat
  shows "((if 97 \<le> n \<and> n \<le> 122 then n - 32 else n) = (if 97 \<le> m \<and> m \<le> 122 then m - 32 else m))
       = ((if 65 \<le> n \<and> n \<le> 90 then n + 32 else n) = (if 65 \<le> m \<and> m \<le> 90 then m + 32 else m))"
  by (simp split: if_splits) arith

text \<open>Two characters have the same upper case exactly when they have the same lower case.\<close>

lemma upper_char_eq_iff_lower_char_eq:
  "(upper_char c = upper_char d) = (lower_char c = lower_char d)"
proof -
  have "(upper_char c = upper_char d)
      = ((of_char (upper_char c) :: nat) = of_char (upper_char d))"
    by simp
  also have "\<dots> = ((of_char (lower_char c) :: nat) = of_char (lower_char d))"
    by (simp only: of_char_upper_char of_char_lower_char case_fold_nat)
  also have "\<dots> = (lower_char c = lower_char d)"
    by simp
  finally show ?thesis .
qed

lemma upper_eq_iff_lower_eq: "(upper t = upper u) = (lower t = lower u)"
proof (induction t arbitrary: u)
  case Nil
  then show ?case by (auto simp: upper_def lower_def)
next
  case (Cons c t)
  then show ?case
    by (cases u) (auto simp: upper_def lower_def upper_char_eq_iff_lower_char_eq)
qed

lemma upper_sentinel: "upper sentinel = ''NOT FOUND IN ITSM''"
  by code_simp

text \<open>The comparison the code makes is the specification's equality up to case.\<close>

lemma upper_is_sentinel:
  "(upper t = ''NOT FOUND IN ITSM'') = equals_ignoring_case t sentinel"
  using upper_eq_iff_lower_eq [of t sentinel]
  by (simp only: upper_sentinel equals_ignoring_case_def)

lemma strip_Nil: "strip [] = []"
  by (simp add: strip_def strip_chars_def)

lemma spec_record_eq:
  assumes "row_get row ''ID'' = Some i" and "row_get row ''Serial Number'' = Some n"
  shows "spec_record row =
           (if keep_row (strip i) (strip n) then Some \<lparr>ID = strip i, SerialNumber = strip n\<rparr>
            else None)"
  using assms
  by (auto simp: spec_record_def field_def row_get_def keep_row_def upper_is_sentinel strip_Nil
      split: option.splits)

lemma read_rows_spec:
  assumes "\<forall>row\<in>set rows. row_get row ''ID'' \<noteq> None \<and> row_get row ''Serial Number'' \<noteq> None"
  shows "read_rows rows asset_data = Inr (asset_data @ spec_records rows)"
  using assms
proof (induction rows arbitrary: asset_data)
  case Nil
  then show ?case by (simp add: spec_records_def)
next
  case (Cons row rows)
  from Cons.prems obtain i n where
    i: "row_get row ''ID'' = Some i" and n: "row_get row ''Serial Number'' = Some n"
    by auto
  from Cons.prems have rest:
    "\<forall>row\<in>set rows. row_get row ''ID'' \<noteq> None \<and> row_get row ''Serial Number'' \<noteq> None"
    by simp
  show ?case
    using Cons.IH [OF rest] spec_record_eq [OF i n]
    by (simp add: i n strip_value_def spec_records_def map_filter_simps)
qed

lemma three_rows_have_values:
  "\<forall>row\<in>set three_rows. row_get row ''ID'' \<noteq> None \<and> row_get row ''Serial Number'' \<noteq> None"
  by (simp add: three_rows_def row_get_def)

text \<open>
  Where nothing raises, the reader does what the specification says. When the file opens,
  the reader raises nothing, and every row holds a string under \<open>ID\<close> and under
  \<open>Serial Number\<close> (or the header lacks the column), then \<open>read_ids_from_csv\<close> returns
  exactly the records of the rows whose trimmed \<open>ID\<close> and trimmed \<open>Serial Number\<close> are both
  non-empty and neither equals the sentinel up to case, in file order. On the three rows of
  the specification's example it returns the one record with \<open>ID\<close> 1 and serial number ABC.
\<close>

lemma read_ids_from_csv_keeps_valid_rows:
  assumes "csv_files w file_path = CsvOpened rows None"
    and "\<forall>row\<in>set rows. row_get row ''ID'' \<noteq> None \<and> row_get row ''Serial Number'' \<noteq> None"
  shows "fst (read_ids_from_csv w file_path s) = Inr (spec_records rows)
       \<and> fst (read_ids_from_csv (csv_world (CsvOpened three_rows None)) CSV_FILENAME s)
           = Inr [\<lparr>ID = ''1'', SerialNumber = ''ABC''\<rparr>]"
proof -
  have 1: "fst (read_ids_from_csv w file_path s) = Inr (spec_records rows)"
    using read_rows_spec [OF assms(2), of "[]"]
    by (simp add: read_ids_from_csv_def read_ids_from_csv_try_def assms(1) Let_def)
  have 2: "read_rows three_rows [] = Inr [\<lparr>ID = ''1'', SerialNumber = ''ABC''\<rparr>]"
    by code_simp
  have "fst (read_ids_from_csv (csv_world (CsvOpened three_rows None)) CSV_FILENAME s)
           = Inr [\<lparr>ID = ''1'', SerialNumber = ''ABC''\<rparr>]"
    by (simp add: read_ids_from_csv_def read_ids_from_csv_try_def Let_def csv_world_def
        demo_world_def 2)
  with 1 show ?thesis by simp
qed

lemma read_ids_from_csv_three_rows:
  "csv_files (csv_world (CsvOpened three_rows None)) CSV_FILENAME = CsvOpened three_rows None
   \<and> spec_records three_rows = [\<lparr>ID = ''1'', SerialNumber = ''ABC''\<rparr>]
   \<and> fst (read_ids_from_csv (csv_world (CsvOpened three_rows None)) CSV_FILENAME initial)
       = Inr (spec_records three_rows)"
proof -
  have a: "csv_files (csv_world (CsvOpened three_rows None)) CSV_FILENAME
             = CsvOpened three_rows None"
    by (simp add: csv_world_def demo_world_def)
  have b: "spec_records three_rows = [\<lparr>ID = ''1'', SerialNumber = ''ABC''\<rparr>]"
    by code_simp
  from a b read_ids_from_csv_keeps_valid_rows [OF a three_rows_have_values, of initial]
  show ?thesis by simp
qed

text \<open>
  C2. The claim is about every input file; the code breaks it on a file with a short line.
  In \<open>short_row_file\<close> the first row is valid and the second has an \<open>ID\<close> and no serial
  number, so the records the claim describes are the first row's alone. The reader returns
  the empty list: the missing value is \<^verbatim>\<open>None\<close>, not the default of
  \<^verbatim>\<open>row.get('Serial Number', '')\<close>, \<^verbatim>\<open>None.strip()\<close> raises \<open>AttributeError\<close>, and the handler
  \<^verbatim>\<open>except Exception\<close> drops the rows already kept. With the second line written
  \<^verbatim>\<open>2,\<close> (an empty serial number) the same code skips that row and keeps the first.
\<close>

theorem read_ids_from_csv_short_row_discards_valid_rows:
  "fst (read_ids_from_csv (csv_world (CsvOpened short_row_file None)) CSV_FILENAME initial)
     = Inr []
   \<and> spec_records short_row_file = [\<lparr>ID = ''1'', SerialNumber = ''ABC''\<rparr>]
   \<and> fst (read_ids_from_csv (csv_world (CsvOpened short_row_file None)) CSV_FILENAME initial)
       \<noteq> Inr (spec_records short_row_file)
   \<and> fst (read_ids_from_csv (csv_world (CsvOpened empty_field_file None)) CSV_FILENAME initial)
       = Inr [\<lparr>ID = ''1'', SerialNumber = ''ABC''\<rparr>]"
proof -
  have a: "read_rows short_row_file []
     = Inl (Exn AttributeError ''NoneType object has no attribute strip'')"
    by code_simp
  have b: "spec_records short_row_file = [\<lparr>ID = ''1'', SerialNumber = ''ABC''\<rparr>]"
    by code_simp
  have c: "read_rows empty_field_file [] = Inr [\<lparr>ID = ''1'', SerialNumber = ''ABC''\<rparr>]"
    by code_simp
  have d: "fst (read_ids_from_csv (csv_world (CsvOpened short_row_file None)) CSV_FILENAME
                  initial) = Inr []"
    by (simp add: read_ids_from_csv_def read_ids_from_csv_try_def Let_def csv_world_def
        demo_world_def a)
  have e: "fst (read_ids_from_csv (csv_world (CsvOpened empty_field_file None)) CSV_FILENAME
                  initial) = Inr [\<lparr>ID = ''1'', SerialNumber = ''ABC''\<rparr>]"
    by (simp add: read_ids_from_csv_def read_ids_from_csv_try_def Let_def csv_world_def
        demo_world_def c)
  from b d e show ?thesis by simp
qed

lemma read_ids_from_csv_handles:
  assumes raised: "read_ids_from_csv_try w file_path = Inl e"
  shows "\<exists>line. read_ids_from_csv w file_path s
            = (Inr [], emit (Print (''[ERROR] '' @ line)) (emit (OpenFile file_path) s))"
proof (cases e)
  case (Exn c msg)
  show ?thesis
  proof (cases "c = FileNotFoundError")
    case True
    with raised Exn show ?thesis
      by (intro exI [of _ "''CSV file not found at: '' @ file_path"])
         (simp add: read_ids_from_csv_def Let_def)
  next
    case False
    with raised Exn show ?thesis
      by (intro exI [of _ "''An error occurred while reading the CSV file: '' @ msg"])
         (simp add: read_ids_from_csv_def Let_def)
  qed
qed

text \<open>
  C8. For every file path and every file, \<open>read_ids_from_csv\<close> returns to its caller, it
  never raises. When opening the file raises (a missing file among others), and when the
  reader raises in the middle of the file (a file that does not parse), the result is the
  empty list and an \<^verbatim>\<open>[ERROR]\<close> line is printed.
\<close>

theorem read_ids_from_csv_never_raises:
  "(\<exists>assets s'. read_ids_from_csv w file_path s = (Inr assets, s'))
   \<and> (\<forall>e. csv_files w file_path = CsvOpenRaises e \<longrightarrow>
         (\<exists>line. read_ids_from_csv w file_path s
            = (Inr [], emit (Print (''[ERROR] '' @ line)) (emit (OpenFile file_path) s))))
   \<and> (\<forall>rows e. csv_files w file_path = CsvOpened rows (Some e) \<longrightarrow>
         (\<exists>line. read_ids_from_csv w file_path s
            = (Inr [], emit (Print (''[ERROR] '' @ line)) (emit (OpenFile file_path) s))))"
proof -
  have 1: "\<exists>assets s'. read_ids_from_csv w file_path s = (Inr assets, s')"
  proof (cases "read_ids_from_csv_try w file_path")
    case (Inl e)
    then show ?thesis
      by (cases e) (simp add: read_ids_from_csv_def Let_def)
  next
    case (Inr assets)
    then show ?thesis by (simp add: read_ids_from_csv_def Let_def)
  qed
  have 2: "\<exists>line. read_ids_from_csv w file_path s
            = (Inr [], emit (Print (''[ERROR] '' @ line)) (emit (OpenFile file_path) s))"
    if "csv_files w file_path = CsvOpenRaises e" for e
  proof -
    from that have "read_ids_from_csv_try w file_path = Inl e"
      by (simp add: read_ids_from_csv_try_def)
    then show ?thesis by (rule read_ids_from_csv_handles)
  qed
  have 3: "\<exists>line. read_ids_from_csv w file_path s
            = (Inr [], emit (Print (''[ERROR] '' @ line)) (emit (OpenFile file_path) s))"
    if "csv_files w file_path = CsvOpened rows (Some e)" for rows e
  proof -
    from that have "\<exists>e'. read_ids_from_csv_try w file_path = Inl e'"
      by (cases "read_rows rows []") (simp_all add: read_ids_from_csv_try_def)
    then show ?thesis using read_ids_from_csv_handles by blast
  qed
  from 1 2 3 show ?thesis by blast
qed

theorem read_ids_from_csv_never_raises_witness:
  "csv_files (csv_world (CsvOpened [] None)) ''missing.csv''
     = CsvOpenRaises (Exn FileNotFoundError ''missing.csv'')
   \<and> (\<exists>assets s'. read_ids_from_csv (csv_world (CsvOpened [] None)) ''missing.csv'' initial
          = (Inr assets, s'))
   \<and> (\<exists>line. read_ids_from_csv (csv_world (CsvOpened [] None)) ''missing.csv'' initial
          = (Inr [], emit (Print (''[ERROR] '' @ line)) (emit (OpenFile ''missing.csv'') initial)))"
proof -
  have a: "csv_files (csv_world (CsvOpened [] None)) ''missing.csv''
     = CsvOpenRaises (Exn FileNotFoundError ''missing.csv'')"
    by (simp add: csv_world_def demo_world_def CSV_FILENAME_def)
  from a read_ids_from_csv_never_raises
         [of "csv_world (CsvOpened [] None)" "''missing.csv''" initial]
  show ?thesis by blast
qed

section \<open>Properties of the update call\<close>

lemma http_events_append: "http_events (xs @ ys) = http_events xs @ http_events ys"
  by (induction xs rule: http_events.induct) simp_all

lemma build_patch_document_map:
  "build_patch_document items doc = doc @ map (\<lambda>(k, v). patch_operation k v) items"
  by (induction items arbitrary: doc) auto

lemma update_asset_status_run:
  "fst (update_asset_status w app_id asset_id token (PDict a kvs) s)
     = Inr (succeeded (network w (trace s) (update_request w app_id asset_id token kvs)))
   \<and> http_events (trace (snd (update_asset_status w app_id asset_id token (PDict a kvs) s)))
     = http_events (trace s) @ [(update_request w app_id asset_id token kvs,
          network w (trace s) (update_request w app_id asset_id token kvs))]
   \<and> next_id (snd (update_asset_status w app_id asset_id token (PDict a kvs) s)) = next_id s"
proof (cases "network w (trace s) (update_request w app_id asset_id token kvs)")
  case (Responded r)
  then show ?thesis
    by (cases "is_error_status (status_code r)")
       (simp_all add: update_asset_status_def dict_items_def request_def Let_def emit_def
          succeeded_def http_events_append)
next
  case (Raised t msg)
  then show ?thesis
    by (simp add: update_asset_status_def dict_items_def request_def Let_def emit_def
          succeeded_def http_events_append)
qed

lemma filter_path_absent:
  "k \<notin> fst ` set kvs \<Longrightarrow>
   filter (\<lambda>op. path_of op = Some (''/'' @ k)) (map (\<lambda>(k, v). patch_operation k v) kvs) = []"
  by (induction kvs) (auto simp: patch_operation_def)

lemma filter_path_once:
  "distinct (map fst kvs) \<Longrightarrow> k \<in> fst ` set kvs \<Longrightarrow>
   length (filter (\<lambda>op. path_of op = Some (''/'' @ k)) (map (\<lambda>(k, v). patch_operation k v) kvs)) = 1"
proof (induction kvs)
  case Nil
  then show ?case by simp
next
  case (Cons kv kvs)
  obtain k' v' where kv: "kv = (k', v')" by (cases kv)
  show ?case
  proof (cases "k' = k")
    case True
    with Cons.prems kv have "k \<notin> fst ` set kvs" by auto
    from filter_path_absent [OF this] True kv show ?thesis
      by (simp add: patch_operation_def)
  next
    case False
    with Cons kv show ?thesis by (auto simp: patch_operation_def)
  qed
qed

text \<open>
  C6. For every status payload (a dictionary, which has each key once),
  \<open>update_asset_status\<close> makes one HTTP call: a PATCH to
  \<^verbatim>\<open>{API_BASE_URL}/{app_id}/assets/{asset_id}\<close> with the header
  \<^verbatim>\<open>Authorization: Bearer <token>\<close>, whose body is the array of the objects
  \<^verbatim>\<open>{op: "replace", path: "/<key>", value: <value>}\<close> of the payload's items in order, so
  that every key of the payload has exactly one object with its path.
\<close>

theorem update_asset_status_sends_json_patch:
  assumes "distinct (map fst kvs)"
  shows "\<exists>r out ops.
      fst (update_asset_status w app_id asset_id token (PDict a kvs) s) = Inr (succeeded out)
    \<and> http_events (trace (snd (update_asset_status w app_id asset_id token (PDict a kvs) s)))
        = http_events (trace s) @ [(r, out)]
    \<and> req_method r = PATCH
    \<and> req_url r = py_str (API_BASE_URL w) @ ''/'' @ py_str app_id @ ''/assets/'' @ asset_id
    \<and> map_of (req_headers r) ''Authorization'' = Some (''Bearer '' @ py_str token)
    \<and> req_json r = JArr ops
    \<and> ops = map (\<lambda>(k, v). JObj [(''op'', JStr ''replace''), (''path'', JStr (''/'' @ k)),
                                (''value'', to_json v)]) kvs
    \<and> (\<forall>k \<in> fst ` set kvs. length (filter (\<lambda>op. path_of op = Some (''/'' @ k)) ops) = 1)"
proof -
  let ?r = "update_request w app_id asset_id token kvs"
  let ?ops = "map (\<lambda>(k, v). patch_operation k v) kvs"
  note run = update_asset_status_run [of w app_id asset_id token a kvs s]
  have body: "req_json ?r = JArr ?ops"
    by (simp add: update_request_def build_patch_document_map)
  have shape: "?ops = map (\<lambda>(k, v). JObj [(''op'', JStr ''replace''), (''path'', JStr (''/'' @ k)),
                                (''value'', to_json v)]) kvs"
    by (simp add: patch_operation_def)
  have once: "\<forall>k \<in> fst ` set kvs. length (filter (\<lambda>op. path_of op = Some (''/'' @ k)) ?ops) = 1"
    using filter_path_once [OF assms] by blast
  have req: "req_method ?r = PATCH"
    "req_url ?r = py_str (API_BASE_URL w) @ ''/'' @ py_str app_id @ ''/assets/'' @ asset_id"
    "map_of (req_headers ?r) ''Authorization'' = Some (''Bearer '' @ py_str token)"
    by (simp_all add: update_request_def asset_url_def)
  from run body shape once req show ?thesis
    by (intro exI [of _ ?r] exI [of _ "network w (trace s) ?r"] exI [of _ ?ops]) simp
qed

theorem update_asset_status_sends_json_patch_witness:
  "distinct (map fst sample_payload)
   \<and> (\<exists>r out ops.
      fst (update_asset_status offline_world (Some ''app'') ''17'' (Some ''tok'')
             (PDict 0 sample_payload) initial) = Inr (succeeded out)
    \<and> http_events (trace (snd (update_asset_status offline_world (Some ''app'') ''17''
             (Some ''tok'') (PDict 0 sample_payload) initial)))
        = http_events (trace initial) @ [(r, out)]
    \<and> req_method r = PATCH
    \<and> req_url r = py_str (API_BASE_URL offline_world) @ ''/'' @ py_str (Some ''app'')
         @ ''/assets/'' @ ''17''
    \<and> map_of (req_headers r) ''Authorization'' = Some (''Bearer '' @ py_str (Some ''tok''))
    \<and> req_json r = JArr ops
    \<and> ops = map (\<lambda>(k, v). JObj [(''op'', JStr ''replace''), (''path'', JStr (''/'' @ k)),
                                (''value'', to_json v)]) sample_payload
    \<and> (\<forall>k \<in> fst ` set sample_payload.
          length (filter (\<lambda>op. path_of op = Some (''/'' @ k)) ops) = 1))"
proof -
  have d: "distinct (map fst sample_payload)"
    by (simp add: sample_payload_def)
  from d update_asset_status_sends_json_patch [OF d, of offline_world "Some ''app''" "''17''" "Some ''tok''" 0 initial]
  show ?thesis by blast
qed

section \<open>Properties of the loop over the assets\<close>

lemma trace_emit: "trace (emit e s) = trace s @ [e]"
  by (simp add: emit_def)

lemma next_id_emit: "next_id (emit e s) = next_id s"
  by (simp add: emit_def)

lemma post_asset_feed_entry_run:
  "fst (post_asset_feed_entry w app_id asset_id token comment_data s)
     = Inr (succeeded (network w (trace s) (feed_request w app_id asset_id token comment_data)))
   \<and> http_events (trace (snd (post_asset_feed_entry w app_id asset_id token comment_data s)))
     = http_events (trace s) @ [(feed_request w app_id asset_id token comment_data,
          network w (trace s) (feed_request w app_id asset_id token comment_data))]
   \<and> next_id (snd (post_asset_feed_entry w app_id asset_id token comment_data s)) = next_id s"
proof (cases "network w (trace s) (feed_request w app_id asset_id token comment_data)")
  case (Responded r)
  then show ?thesis
    by (cases "is_error_status (status_code r)")
       (simp_all add: post_asset_feed_entry_def request_def Let_def emit_def
          succeeded_def http_events_append)
next
  case (Raised t msg)
  then show ?thesis
    by (simp add: post_asset_feed_entry_def request_def Let_def emit_def
          succeeded_def http_events_append)
qed

text \<open>
  One iteration on a dictionary template: the copy has the identity \<open>next_id s\<close>, the
  assignment acts on it, and the calls are the PATCH and, after its success, the feed POST.
\<close>

lemma process_asset_step:
  assumes dc: "deepcopy_items kvs (Suc (next_id s)) = (items, n')"
  shows "\<exists>cm' s' upd out rest.
      process_asset w token n_total i a (PDict b kvs) cm s
        = (Inr (assign_at (next_id s) ''serialNumber'' (PStr (SerialNumber a)) (PDict b kvs), cm'), s')
    \<and> next_id s' = n'
    \<and> http_events (trace s') = http_events (trace s) @ (upd, out) # rest
    \<and> upd = update_request w (APP_ID w) (ID a) token
              (dict_set ''serialNumber'' (PStr (SerialNumber a))
                 (assign_at_items (next_id s) ''serialNumber'' (PStr (SerialNumber a)) items))
    \<and> (if succeeded out
        then (\<exists>r2 out2. rest = [(r2, out2)] \<and> req_method r2 = POST
                \<and> req_url r2 = asset_url w (APP_ID w) (ID a) @ ''/feed'')
        else rest = [])"
proof -
  define s1 where "s1 = emit (Print (processing_message (ID a) i n_total)) s"
  define s2 where "s2 = s1\<lparr>next_id := n'\<rparr>"
  define sn where "sn = PStr (SerialNumber a)"
  define cur where "cur = dict_set ''serialNumber'' sn
     (assign_at_items (next_id s) ''serialNumber'' sn items)"
  define cm' where "cm' = assign_at (next_id s) ''serialNumber'' sn cm"
  define upd where "upd = update_request w (APP_ID w) (ID a) token cur"
  define out where "out = network w (trace s2) upd"
  have h2: "http_events (trace s2) = http_events (trace s)" "next_id s2 = n'"
    by (simp_all add: s2_def s1_def emit_def http_events_append)
  have curv: "assign_at (next_id s) ''serialNumber'' sn (PDict (next_id s) items)
               = PDict (next_id s) cur"
    by (simp add: cur_def)
  obtain s3 where us:
    "update_asset_status w (APP_ID w) (ID a) token
        (assign_at (next_id s) ''serialNumber'' sn (PDict (next_id s) items)) s2
       = (Inr (succeeded out), s3)"
    and h3: "http_events (trace s3) = http_events (trace s2) @ [(upd, out)]"
    and n3: "next_id s3 = next_id s2"
    unfolding curv
    using update_asset_status_run [of w "APP_ID w" "ID a" token "next_id s" cur s2]
    by (cases "update_asset_status w (APP_ID w) (ID a) token (PDict (next_id s) cur) s2")
       (simp add: upd_def out_def)
  have unfold: "process_asset w token n_total i a (PDict b kvs) cm s =
      (case (if succeeded out
             then post_asset_feed_entry w (APP_ID w) (ID a) token cm' (emit (Sleep 1) s3)
             else (Inr False, s3)) of
         (Inl e, s4) \<Rightarrow> (Inl e, s4)
       | (Inr posted, s4) \<Rightarrow>
           (Inr (assign_at (next_id s) ''serialNumber'' sn (PDict b kvs), cm'),
            if i < n_total then emit (Sleep 1) s4 else s4))"
    using dc us
    unfolding cm'_def sn_def s2_def s1_def
    by (simp add: process_asset_def Let_def setitem_target_def next_id_emit
        del: assign_at.simps)
  show ?thesis
  proof (cases "succeeded out")
    case False
    with unfold h2 h3 n3 show ?thesis
      by (auto simp: emit_def http_events_append upd_def cur_def sn_def)
  next
    case True
    let ?s3' = "emit (Sleep 1) s3"
    let ?f = "feed_request w (APP_ID w) (ID a) token cm'"
    obtain s4 where ps:
      "post_asset_feed_entry w (APP_ID w) (ID a) token cm' ?s3'
         = (Inr (succeeded (network w (trace ?s3') ?f)), s4)"
      and h4: "http_events (trace s4) = http_events (trace ?s3') @ [(?f, network w (trace ?s3') ?f)]"
      and n4: "next_id s4 = next_id ?s3'"
      using post_asset_feed_entry_run [of w "APP_ID w" "ID a" token cm' ?s3']
      by (cases "post_asset_feed_entry w (APP_ID w) (ID a) token cm' ?s3'") simp
    have f: "req_method ?f = POST" "req_url ?f = asset_url w (APP_ID w) (ID a) @ ''/feed''"
      by (simp_all add: feed_request_def)
    from True unfold ps h2 h3 n3 h4 n4 f show ?thesis
      by (auto simp: emit_def http_events_append upd_def cur_def sn_def)
  qed
qed

lemma is_dict_assign_at: "is_dict x \<Longrightarrow> is_dict (assign_at a k v x)"
  by (cases x) simp_all

text \<open>
  C1. In the loop over the asset records (with a dictionary as status template), the HTTP
  calls are, asset by asset and in the order of the list: the PATCH of the asset, and the
  feed POST of that same asset exactly when that PATCH succeeded. So a feed POST is only
  made after the successful PATCH of its asset, a failed PATCH skips the feed POST of that
  asset alone, and the loop goes on to the next record and returns normally.
\<close>

theorem process_assets_comment_only_after_update:
  assumes "is_dict status"
  shows "\<exists>final s' hs.
      process_assets w token n_total i assets status cm s = (Inr final, s')
    \<and> http_events (trace s') = http_events (trace s) @ hs
    \<and> conforms (map (\<lambda>a. asset_url w (APP_ID w) (ID a)) assets) hs"
  using assms
proof (induction assets arbitrary: i status cm s)
  case Nil
  then show ?case by simp
next
  case (Cons a assets)
  from Cons.prems obtain b kvs where st: "status = PDict b kvs"
    by (cases status) simp_all
  obtain items n' where dc: "deepcopy_items kvs (Suc (next_id s)) = (items, n')"
    by (cases "deepcopy_items kvs (Suc (next_id s))")
  let ?st' = "assign_at (next_id s) ''serialNumber'' (PStr (SerialNumber a)) (PDict b kvs)"
  from process_asset_step [OF dc, of w token n_total i a b cm]
  obtain cm' s1 upd out rest where
    step: "process_asset w token n_total i a (PDict b kvs) cm s = (Inr (?st', cm'), s1)"
    and h1: "http_events (trace s1) = http_events (trace s) @ (upd, out) # rest"
    and upd: "upd = update_request w (APP_ID w) (ID a) token
              (dict_set ''serialNumber'' (PStr (SerialNumber a))
                 (assign_at_items (next_id s) ''serialNumber'' (PStr (SerialNumber a)) items))"
    and rest: "if succeeded out
        then (\<exists>r2 out2. rest = [(r2, out2)] \<and> req_method r2 = POST
                \<and> req_url r2 = asset_url w (APP_ID w) (ID a) @ ''/feed'')
        else rest = []"
    by blast
  have "is_dict ?st'" by (rule is_dict_assign_at) simp
  from Cons.IH [OF this, of "Suc i" cm' s1]
  obtain final s' hs where
    loop: "process_assets w token n_total (Suc i) assets ?st' cm' s1 = (Inr final, s')"
    and h: "http_events (trace s') = http_events (trace s1) @ hs"
    and conf: "conforms (map (\<lambda>a. asset_url w (APP_ID w) (ID a)) assets) hs"
    by blast
  have 1: "process_assets w token n_total i (a # assets) status cm s = (Inr final, s')"
    using st step loop by simp
  have 2: "http_events (trace s') = http_events (trace s) @ ((upd, out) # rest @ hs)"
    using h h1 by simp
  have 3: "conforms (map (\<lambda>a. asset_url w (APP_ID w) (ID a)) (a # assets))
             ((upd, out) # rest @ hs)"
    using rest conf upd by (auto simp: update_request_def split: if_splits)
  from 1 2 3 show ?case by blast
qed

lemma deepcopy_fresh:
  "n \<le> snd (deepcopy v n) \<and> ids_of (fst (deepcopy v n)) \<subseteq> {n..<snd (deepcopy v n)}"
  "n \<le> snd (deepcopy_list xs n)
     \<and> ids_of_list (fst (deepcopy_list xs n)) \<subseteq> {n..<snd (deepcopy_list xs n)}"
  "n \<le> snd (deepcopy_items kvs n)
     \<and> ids_of_items (fst (deepcopy_items kvs n)) \<subseteq> {n..<snd (deepcopy_items kvs n)}"
  by (induction v n and xs n and kvs n rule: deepcopy_deepcopy_list_deepcopy_items.induct)
     (force split: prod.splits simp: subset_iff)+

lemma deepcopy_to_json:
  "to_json (fst (deepcopy v n)) = to_json v"
  "to_json_list (fst (deepcopy_list xs n)) = to_json_list xs"
  "to_json_items (fst (deepcopy_items kvs n)) = to_json_items kvs"
  by (induction v n and xs n and kvs n rule: deepcopy_deepcopy_list_deepcopy_items.induct)
     (auto split: prod.splits)

lemma assign_at_absent:
  "a \<notin> ids_of x \<Longrightarrow> assign_at a k v x = x"
  "a \<notin> ids_of_list xs \<Longrightarrow> assign_at_list a k v xs = xs"
  "a \<notin> ids_of_items kvs \<Longrightarrow> assign_at_items a k v kvs = kvs"
  by (induction a k v x and a k v xs and a k v kvs
      rule: assign_at_assign_at_list_assign_at_items.induct) auto

lemma patch_operations_to_json:
  "map (\<lambda>(k, v). patch_operation k v) xs
     = map (\<lambda>(k, j). JObj [(''op'', JStr ''replace''), (''path'', JStr (''/'' @ k)), (''value'', j)])
         (to_json_items xs)"
  by (induction xs) (auto simp: patch_operation_def)

lemma to_json_items_dict_set:
  "to_json_items (dict_set k v xs) = dict_set k (to_json v) (to_json_items xs)"
  by (induction xs) auto

lemma process_asset_fresh_step:
  assumes old: "ids_of (PDict b kvs) \<subseteq> {..<next_id s}"
  shows "\<exists>cm' s' upd out rest.
      process_asset w token n_total i a (PDict b kvs) cm s = (Inr (PDict b kvs, cm'), s')
    \<and> next_id s \<le> next_id s'
    \<and> http_events (trace s') = http_events (trace s) @ (upd, out) # rest
    \<and> is_update (upd, out)
    \<and> req_json upd = expected_patch_body (to_json_items kvs) (SerialNumber a)
    \<and> filter is_update rest = []"
proof -
  obtain items n' where dc: "deepcopy_items kvs (Suc (next_id s)) = (items, n')"
    by (cases "deepcopy_items kvs (Suc (next_id s))")
  let ?sn = "PStr (SerialNumber a)"
  from deepcopy_fresh(3) [of "Suc (next_id s)" kvs] dc
  have n': "Suc (next_id s) \<le> n'" and fresh: "ids_of_items items \<subseteq> {Suc (next_id s)..<n'}"
    by simp_all
  from fresh have "next_id s \<notin> ids_of_items items" by auto
  then have copy: "assign_at_items (next_id s) ''serialNumber'' ?sn items = items"
    by (rule assign_at_absent)
  from old have "next_id s \<notin> ids_of (PDict b kvs)" by auto
  then have same: "assign_at (next_id s) ''serialNumber'' ?sn (PDict b kvs) = PDict b kvs"
    by (rule assign_at_absent)
  have items: "to_json_items items = to_json_items kvs"
    using deepcopy_to_json(3) [of kvs "Suc (next_id s)"] dc by simp
  from process_asset_step [OF dc, of w token n_total i a b cm]
  obtain cm' s' upd out rest where
    step: "process_asset w token n_total i a (PDict b kvs) cm s
             = (Inr (assign_at (next_id s) ''serialNumber'' ?sn (PDict b kvs), cm'), s')"
    and nid: "next_id s' = n'"
    and h: "http_events (trace s') = http_events (trace s) @ (upd, out) # rest"
    and upd: "upd = update_request w (APP_ID w) (ID a) token
              (dict_set ''serialNumber'' ?sn
                 (assign_at_items (next_id s) ''serialNumber'' ?sn items))"
    and rest: "if succeeded out
        then (\<exists>r2 out2. rest = [(r2, out2)] \<and> req_method r2 = POST
                \<and> req_url r2 = asset_url w (APP_ID w) (ID a) @ ''/feed'')
        else rest = []"
    by blast
  have 1: "process_asset w token n_total i a (PDict b kvs) cm s = (Inr (PDict b kvs, cm'), s')"
    using step same by simp
  have 2: "next_id s \<le> next_id s'" using nid n' by simp
  have 3: "is_update (upd, out)" by (simp add: is_update_def upd update_request_def)
  have 4: "req_json upd = expected_patch_body (to_json_items kvs) (SerialNumber a)"
    by (simp add: upd copy update_request_def build_patch_document_map patch_operations_to_json
        to_json_items_dict_set items expected_patch_body_def)
  have 5: "filter is_update rest = []"
    using rest by (auto simp: is_update_def split: if_splits)
  from 1 2 h 3 4 5 show ?thesis by blast
qed

lemma process_assets_keep_template:
  assumes "ids_of (PDict b kvs) \<subseteq> {..<next_id s}"
  shows "\<exists>cm' s' hs.
      process_assets w token n_total i assets (PDict b kvs) cm s = (Inr (PDict b kvs, cm'), s')
    \<and> http_events (trace s') = http_events (trace s) @ hs
    \<and> map (\<lambda>h. req_json (fst h)) (filter is_update hs)
        = map (\<lambda>a. expected_patch_body (to_json_items kvs) (SerialNumber a)) assets"
  using assms
proof (induction assets arbitrary: i cm s)
  case Nil
  then show ?case by simp
next
  case (Cons a assets)
  from process_asset_fresh_step [OF Cons.prems, of w token n_total i a cm]
  obtain cm1 s1 upd out rest where
    step: "process_asset w token n_total i a (PDict b kvs) cm s = (Inr (PDict b kvs, cm1), s1)"
    and nid: "next_id s \<le> next_id s1"
    and h1: "http_events (trace s1) = http_events (trace s) @ (upd, out) # rest"
    and u: "is_update (upd, out)"
    and body: "req_json upd = expected_patch_body (to_json_items kvs) (SerialNumber a)"
    and rest: "filter is_update rest = []"
    by blast
  from Cons.prems nid have "ids_of (PDict b kvs) \<subseteq> {..<next_id s1}" by auto
  from Cons.IH [OF this, of "Suc i" cm1]
  obtain cm' s' hs where
    loop: "process_assets w token n_total (Suc i) assets (PDict b kvs) cm1 s1
             = (Inr (PDict b kvs, cm'), s')"
    and h: "http_events (trace s') = http_events (trace s1) @ hs"
    and bodies: "map (\<lambda>h. req_json (fst h)) (filter is_update hs)
        = map (\<lambda>a. expected_patch_body (to_json_items kvs) (SerialNumber a)) assets"
    by blast
  have 1: "process_assets w token n_total i (a # assets) (PDict b kvs) cm s
             = (Inr (PDict b kvs, cm'), s')"
    using step loop by simp
  have 2: "http_events (trace s') = http_events (trace s) @ ((upd, out) # rest @ hs)"
    using h h1 by simp
  have 3: "map (\<lambda>h. req_json (fst h)) (filter is_update ((upd, out) # rest @ hs))
        = map (\<lambda>a. expected_patch_body (to_json_items kvs) (SerialNumber a)) (a # assets)"
    using u body rest bodies by simp
  from 1 2 3 show ?case by blast
qed

text \<open>
  C5. Let the status template be a dictionary whose objects all exist when the loop starts
  (their identities are below the next free one, as for every value \<open>read_json_data\<close>
  has loaded). Then after the loop over any list of asset records the variable
  \<open>status_update_payload\<close> holds the template unchanged; the bodies of the PATCH calls are,
  in order, the JSON-Patch documents of the template with only \<open>serialNumber\<close> set to the
  asset's serial number; and a deep copy made at any later time shares no object with
  the template while having the same content.
\<close>

theorem process_assets_leave_template_unchanged:
  assumes "template = PDict b kvs" and "ids_of template \<subseteq> {..<next_id s}"
  shows "(\<exists>cm' s' hs.
      process_assets w token n_total i assets template cm s = (Inr (template, cm'), s')
    \<and> http_events (trace s') = http_events (trace s) @ hs
    \<and> map (\<lambda>h. req_json (fst h)) (filter is_update hs)
        = map (\<lambda>a. expected_patch_body (to_json_items kvs) (SerialNumber a)) assets)
    \<and> (\<forall>m\<ge>next_id s.
          ids_of (fst (deepcopy template m)) \<inter> ids_of template = {}
        \<and> to_json (fst (deepcopy template m)) = to_json template)"
proof -
  have old: "ids_of (PDict b kvs) \<subseteq> {..<next_id s}"
    using assms by simp
  have "ids_of (fst (deepcopy (PDict b kvs) m)) \<inter> ids_of (PDict b kvs) = {}"
    if "next_id s \<le> m" for m
    using deepcopy_fresh(1) [of m "PDict b kvs"] old that
    by (fastforce simp: subset_iff)
  with process_assets_keep_template [OF old] deepcopy_to_json(1) show ?thesis
    unfolding assms(1) by blast
qed

lemma flaky_calls:
  "map call_summary (http_events (trace (snd (process_assets flaky_world (Some ''tok'') 3 1
       three_assets sample_template sample_comment loop_state))))
   = [(PATCH, ''https://api/app/assets/1'', True),
      (POST, ''https://api/app/assets/1/feed'', True),
      (PATCH, ''https://api/app/assets/2'', False),
      (PATCH, ''https://api/app/assets/3'', True),
      (POST, ''https://api/app/assets/3/feed'', True)]"
  by (simp add: three_assets_def sample_template_def sample_comment_def loop_state_def
      process_asset_def Let_def setitem_target_def update_asset_status_def dict_items_def
      post_asset_feed_entry_def request_def emit_def update_request_def feed_request_def
      asset_url_def py_str_def flaky_world_def demo_world_def flaky_network_def response_def
      is_error_status_def http_events_append call_summary_def succeeded_def)

theorem process_assets_comment_only_after_update_witness:
  "is_dict sample_template
   \<and> (\<exists>final s' hs.
        process_assets flaky_world (Some ''tok'') 3 1 three_assets sample_template
          sample_comment loop_state = (Inr final, s')
      \<and> http_events (trace s') = http_events (trace loop_state) @ hs
      \<and> conforms (map (\<lambda>a. asset_url flaky_world (APP_ID flaky_world) (ID a)) three_assets) hs)
   \<and> map call_summary (http_events (trace (snd (process_assets flaky_world (Some ''tok'') 3 1
         three_assets sample_template sample_comment loop_state))))
       = [(PATCH, ''https://api/app/assets/1'', True),
          (POST, ''https://api/app/assets/1/feed'', True),
          (PATCH, ''https://api/app/assets/2'', False),
          (PATCH, ''https://api/app/assets/3'', True),
          (POST, ''https://api/app/assets/3/feed'', True)]"
proof -
  have d: "is_dict sample_template"
    by (simp add: sample_template_def)
  from d flaky_calls
    process_assets_comment_only_after_update
      [OF d, of flaky_world "Some ''tok''" 3 1 three_assets sample_comment loop_state]
  show ?thesis by blast
qed

theorem process_assets_leave_template_unchanged_witness:
  "ids_of sample_template \<subseteq> {..<next_id loop_state}
   \<and> (\<exists>cm' s' hs.
        process_assets flaky_world (Some ''tok'') 3 1 three_assets sample_template
          sample_comment loop_state = (Inr (sample_template, cm'), s')
      \<and> http_events (trace s') = http_events (trace loop_state) @ hs
      \<and> map (\<lambda>h. req_json (fst h)) (filter is_update hs)
          = map (\<lambda>a. expected_patch_body
                         (to_json_items [(''statusId'', PInt 7),
                                         (''tags'', PList 1 [PStr ''disposed''])])
                         (SerialNumber a)) three_assets)
   \<and> ids_of (fst (deepcopy sample_template 3)) \<inter> ids_of sample_template = {}"
proof -
  have t: "sample_template
             = PDict 0 [(''statusId'', PInt 7), (''tags'', PList 1 [PStr ''disposed''])]"
    by (simp add: sample_template_def)
  have old: "ids_of sample_template \<subseteq> {..<next_id loop_state}"
    by (simp add: sample_template_def loop_state_def)
  have "next_id loop_state \<le> 3"
    by (simp add: loop_state_def)
  with old process_assets_leave_template_unchanged
      [OF t old, of flaky_world "Some ''tok''" 3 1 three_assets sample_comment]
  show ?thesis by blast
qed

section \<open>Properties of a whole run\<close>

lemma io_events_append: "io_events (xs @ ys) = io_events xs @ io_events ys"
  by (induction xs rule: io_events.induct) simp_all

lemma get_bearer_token_run:
  "http_events (trace (snd (get_bearer_token w u p s)))
     = http_events (trace s) @ [(auth_request w u p, network w (trace s) (auth_request w u p))]"
  "io_events (trace (snd (get_bearer_token w u p s)))
     = io_events (trace s) @ [Http (auth_request w u p) (network w (trace s) (auth_request w u p))]"
  "next_id (snd (get_bearer_token w u p s)) = next_id s"
  by (cases "network w (trace s) (auth_request w u p)";
      simp add: get_bearer_token_def get_bearer_token_try_def request_def Let_def emit_def
        http_events_append io_events_append)+

lemma get_bearer_token_http_error:
  assumes "network w (trace s) (auth_request w u p) = Responded r"
    and "is_error_status (status_code r)"
  shows "fst (get_bearer_token w u p s) = Inr None"
  using assms
  by (simp add: get_bearer_token_def get_bearer_token_try_def request_def Let_def)

lemma read_ids_from_csv_run:
  "\<exists>assets. fst (read_ids_from_csv w p s) = Inr assets"
  "http_events (trace (snd (read_ids_from_csv w p s))) = http_events (trace s)"
  "io_events (trace (snd (read_ids_from_csv w p s))) = io_events (trace s) @ [OpenFile p]"
  "next_id (snd (read_ids_from_csv w p s)) = next_id s"
proof -
  show "\<exists>assets. fst (read_ids_from_csv w p s) = Inr assets"
    by (auto simp: read_ids_from_csv_def Let_def split: sum.splits exn.splits)
  show "http_events (trace (snd (read_ids_from_csv w p s))) = http_events (trace s)"
    by (auto simp: read_ids_from_csv_def Let_def emit_def http_events_append
        split: sum.splits exn.splits)
  show "io_events (trace (snd (read_ids_from_csv w p s))) = io_events (trace s) @ [OpenFile p]"
    by (auto simp: read_ids_from_csv_def Let_def emit_def io_events_append
        split: sum.splits exn.splits)
  show "next_id (snd (read_ids_from_csv w p s)) = next_id s"
    by (auto simp: read_ids_from_csv_def Let_def emit_def split: sum.splits exn.splits)
qed

lemma read_ids_from_csv_result:
  "fst (read_ids_from_csv w p s)
     = Inr (case read_ids_from_csv_try w p of Inl e \<Rightarrow> [] | Inr assets \<Rightarrow> assets)"
  by (auto simp: read_ids_from_csv_def Let_def split: sum.splits exn.splits)

lemma read_json_data_run:
  "\<exists>v. fst (read_json_data w p s) = Inr v"
  "http_events (trace (snd (read_json_data w p s))) = http_events (trace s)"
  "io_events (trace (snd (read_json_data w p s))) = io_events (trace s) @ [OpenFile p]"
  by (auto simp: read_json_data_def Let_def emit_def http_events_append io_events_append
      split: json_source.splits exn.splits prod.splits)

lemma read_json_data_empty_object:
  "json_files w p = JsonLoaded (JObj []) \<Longrightarrow> fst (read_json_data w p s) = Inr (PDict (next_id s) [])"
  by (simp add: read_json_data_def Let_def emit_def build_dict_def)

lemma dispose_empty_template:
  assumes empty: "json_files w DISPOSED_STATUS_JSON = JsonLoaded (JObj [])
                  \<or> json_files w COMMENT_JSON = JsonLoaded (JObj [])"
  shows "fst (dispose w token s) = Inr ()
       \<and> http_events (trace (snd (dispose w token s))) = http_events (trace s)
       \<and> ((case read_ids_from_csv_try w CSV_FILENAME of Inl e \<Rightarrow> [] | Inr assets \<Rightarrow> assets) = []
          \<or> last (trace (snd (dispose w token s))) = fatal_json)"
proof -
  let ?assets = "case read_ids_from_csv_try w CSV_FILENAME of Inl e \<Rightarrow> [] | Inr assets \<Rightarrow> assets"
  define s2 where "s2 = snd (read_ids_from_csv w CSV_FILENAME s)"
  have csv: "read_ids_from_csv w CSV_FILENAME s = (Inr ?assets, s2)"
    using read_ids_from_csv_result [of w CSV_FILENAME s] by (simp add: s2_def prod_eq_iff)
  have h2: "http_events (trace s2) = http_events (trace s)"
    unfolding s2_def by (rule read_ids_from_csv_run(2))
  show ?thesis
  proof (cases "?assets = []")
    case True
    with csv h2 show ?thesis
      by (simp add: dispose_def emit_def http_events_append)
  next
    case False
    define s3 where "s3 = emit (Print (''[INFO] Found '' @ str_nat (length ?assets)
                                   @ '' valid asset entries to process.'')) s2"
    have h3: "http_events (trace s3) = http_events (trace s2)"
      by (simp add: s3_def emit_def http_events_append)
    obtain status where f4: "fst (read_json_data w DISPOSED_STATUS_JSON s3) = Inr status"
      using read_json_data_run(1) by blast
    define s4 where "s4 = snd (read_json_data w DISPOSED_STATUS_JSON s3)"
    from f4 have j4: "read_json_data w DISPOSED_STATUS_JSON s3 = (Inr status, s4)"
      by (simp add: s4_def prod_eq_iff)
    have h4: "http_events (trace s4) = http_events (trace s3)"
      unfolding s4_def by (rule read_json_data_run(2))
    obtain comment where f5: "fst (read_json_data w COMMENT_JSON s4) = Inr comment"
      using read_json_data_run(1) by blast
    define s5 where "s5 = snd (read_json_data w COMMENT_JSON s4)"
    from f5 have j5: "read_json_data w COMMENT_JSON s4 = (Inr comment, s5)"
      by (simp add: s5_def prod_eq_iff)
    have h5: "http_events (trace s5) = http_events (trace s4)"
      unfolding s5_def by (rule read_json_data_run(2))
    have falsy: "\<not> truthy status \<or> \<not> truthy comment"
      using empty f4 f5 read_json_data_empty_object [of w DISPOSED_STATUS_JSON s3]
        read_json_data_empty_object [of w COMMENT_JSON s4]
      by auto
    with csv False j4 j5 have
      "dispose w token s = (Inr (), emit fatal_json s5)"
      unfolding s3_def by (auto simp: dispose_def Let_def fatal_json_def)
    with h2 h3 h4 h5 show ?thesis
      by (simp add: emit_def http_events_append fatal_json_def)
  qed
qed

lemma main_not_set:
  "\<not> environment_set w \<Longrightarrow>
   main w = (Inr (), emit (Print (''[FATAL] Required environment variables are not set. ''
                         @ ''Please check your .env file.'')) start_state)"
  by (simp add: main_def Let_def environment_set_def start_state_def)

lemma main_set:
  "environment_set w \<Longrightarrow>
   main w = (case get_bearer_token w (USERNAME w) (PASSWORD w) start_state of
               (Inl e, s1) \<Rightarrow> (Inl e, s1)
             | (Inr token, s1) \<Rightarrow>
                 if \<not> truthy_str token
                 then (Inr (), emit (Print ''[FATAL] Exiting due to authentication failure.'') s1)
                 else dispose w token s1)"
  by (simp add: main_def Let_def environment_set_def start_state_def)

lemma start_state_events:
  "http_events (trace start_state) = []" "io_events (trace start_state) = []"
  "trace start_state = [Print ''--- Starting Asset Disposer ---'']"
  by (simp_all add: start_state_def emit_def initial_def)

lemma main_without_token:
  assumes "fst (get_bearer_token w (USERNAME w) (PASSWORD w) start_state) = Inr token"
    and "\<not> truthy_str token"
  shows "fst (main w) = Inr ()
       \<and> (http_events (trace (snd (main w))) = []
          \<or> http_events (trace (snd (main w)))
               = [(auth_request w (USERNAME w) (PASSWORD w),
                   network w (trace start_state) (auth_request w (USERNAME w) (PASSWORD w)))])"
proof (cases "environment_set w")
  case False
  then show ?thesis
    by (simp add: main_not_set emit_def http_events_append start_state_events)
next
  case True
  define s1 where "s1 = snd (get_bearer_token w (USERNAME w) (PASSWORD w) start_state)"
  from assms(1) have g: "get_bearer_token w (USERNAME w) (PASSWORD w) start_state = (Inr token, s1)"
    by (simp add: s1_def prod_eq_iff)
  have h1: "http_events (trace s1)
     = [(auth_request w (USERNAME w) (PASSWORD w),
         network w (trace start_state) (auth_request w (USERNAME w) (PASSWORD w)))]"
    unfolding s1_def by (simp add: get_bearer_token_run(1) start_state_events)
  from True g assms(2) h1 show ?thesis
    by (simp add: main_set emit_def http_events_append)
qed

text \<open>
  C10. When the status template or the comment template is the empty mapping \<^verbatim>\<open>{}\<close>,
  the run makes no update and no comment call (its only possible HTTP call is the
  authentication call); and when the run gets as far as the templates (the environment is
  set, a non-empty token was obtained, the input file gave at least one record), \<open>main\<close>
  returns normally with the line
  \<^verbatim>\<open>[FATAL] Exiting due to missing or invalid JSON data.\<close> as its last output.
\<close>

theorem main_empty_template_is_fatal:
  assumes "json_files w DISPOSED_STATUS_JSON = JsonLoaded (JObj [])
           \<or> json_files w COMMENT_JSON = JsonLoaded (JObj [])"
  shows "(http_events (trace (snd (main w))) = []
          \<or> (\<exists>out. http_events (trace (snd (main w)))
                      = [(auth_request w (USERNAME w) (PASSWORD w), out)]))
       \<and> (\<forall>token assets.
             environment_set w
             \<and> fst (get_bearer_token w (USERNAME w) (PASSWORD w) start_state) = Inr (Some token)
             \<and> token \<noteq> []
             \<and> read_ids_from_csv_try w CSV_FILENAME = Inr assets \<and> assets \<noteq> []
             \<longrightarrow> fst (main w) = Inr ()
                 \<and> last (trace (snd (main w)))
                     = Print ''[FATAL] Exiting due to missing or invalid JSON data.'')"
proof -
  let ?auth = "auth_request w (USERNAME w) (PASSWORD w)"
  obtain r s1 where g: "get_bearer_token w (USERNAME w) (PASSWORD w) start_state = (r, s1)"
    by (cases "get_bearer_token w (USERNAME w) (PASSWORD w) start_state")
  have h1: "http_events (trace s1) = [(?auth, network w (trace start_state) ?auth)]"
    using get_bearer_token_run(1) [of w "USERNAME w" "PASSWORD w" start_state] g
    by (simp add: start_state_events)
  have 1: "http_events (trace (snd (main w))) = []
          \<or> (\<exists>out. http_events (trace (snd (main w))) = [(?auth, out)])"
  proof (cases "environment_set w")
    case False
    then show ?thesis
      by (simp add: main_not_set emit_def http_events_append start_state_events)
  next
    case True
    show ?thesis
    proof (cases r)
      case (Inl e)
      with True g h1 show ?thesis by (simp add: main_set)
    next
      case (Inr token)
      show ?thesis
      proof (cases "truthy_str token")
        case False
        with True g Inr h1 show ?thesis
          by (simp add: main_set emit_def http_events_append)
      next
        case token: True
        from dispose_empty_template [OF assms, of token s1] True g Inr token h1
        show ?thesis by (simp add: main_set)
      qed
    qed
  qed
  have 2: "fst (main w) = Inr ()
           \<and> last (trace (snd (main w)))
               = Print ''[FATAL] Exiting due to missing or invalid JSON data.''"
    if env: "environment_set w"
      and tok: "fst (get_bearer_token w (USERNAME w) (PASSWORD w) start_state) = Inr (Some token)"
      and ne: "token \<noteq> []"
      and csv: "read_ids_from_csv_try w CSV_FILENAME = Inr assets" and some: "assets \<noteq> []"
    for token assets
  proof -
    from tok g have r: "r = Inr (Some token)" by simp
    from dispose_empty_template [OF assms, of "Some token" s1] csv some
    have "fst (dispose w (Some token) s1) = Inr ()"
      and "last (trace (snd (dispose w (Some token) s1))) = fatal_json"
      by simp_all
    with env g r ne show ?thesis
      by (simp add: main_set truthy_str_def fatal_json_def)
  qed
  from 1 2 show ?thesis by blast
qed

lemma three_rows_read: "read_rows three_rows [] = Inr [\<lparr>ID = ''1'', SerialNumber = ''ABC''\<rparr>]"
  by code_simp

lemma demo_world_environment: "environment_set (demo_world net csv status comment)"
  by (simp add: demo_world_def environment_set_def truthy_str_def)

text \<open>
  C9 as stated fails: in a run that authenticates and then finds no valid row, the
  authentication call is made before the input file is opened, and no authentication
  call follows the opening of the input file.
\<close>

theorem main_reads_input_before_authenticating_counterexample:
  "trace (snd (main (token_world (quote # ''tok'' @ [quote]))))
     = [Print ''--- Starting Asset Disposer ---'',
        Http (auth_request (token_world (quote # ''tok'' @ [quote])) (Some ''user'') (Some ''secret''))
          (Responded (response 200 (quote # ''tok'' @ [quote]))),
        Print ''[INFO] Authenticated successfully.'',
        OpenFile CSV_FILENAME,
        Print (''[WARNING] No valid asset entries found in '' @ [apostrophe]
                 @ CSV_FILENAME @ [apostrophe] @ ''. Exiting.'')]
   \<and> \<not> auth_after_input (token_world (quote # ''tok'' @ [quote]))
         (trace (snd (main (token_world (quote # ''tok'' @ [quote])))))"
proof -
  let ?w = "token_world (quote # ''tok'' @ [quote])"
  have t: "trace (snd (main ?w))
     = [Print ''--- Starting Asset Disposer ---'',
        Http (auth_request ?w (Some ''user'') (Some ''secret''))
          (Responded (response 200 (quote # ''tok'' @ [quote]))),
        Print ''[INFO] Authenticated successfully.'',
        OpenFile CSV_FILENAME,
        Print (''[WARNING] No valid asset entries found in '' @ [apostrophe]
                 @ CSV_FILENAME @ [apostrophe] @ ''. Exiting.'')]"
    by (simp add: main_def Let_def token_world_def demo_world_def truthy_str_def
        get_bearer_token_def get_bearer_token_try_def request_def auth_request_def
        response_def is_error_status_def strip_chars_def quote_def emit_def initial_def
        dispose_def read_ids_from_csv_def read_ids_from_csv_try_def py_str_def json_of_str_def)
  have "\<not> auth_after_input ?w (trace (snd (main ?w)))"
    unfolding t by (simp add: is_auth_call_def)
  with t show ?thesis by simp
qed

theorem main_empty_template_is_fatal_witness:
  "json_files empty_template_world DISPOSED_STATUS_JSON = JsonLoaded (JObj [])
   \<and> environment_set empty_template_world
   \<and> fst (get_bearer_token empty_template_world (USERNAME empty_template_world)
            (PASSWORD empty_template_world) start_state) = Inr (Some ''tok'')
   \<and> read_ids_from_csv_try empty_template_world CSV_FILENAME
       = Inr [\<lparr>ID = ''1'', SerialNumber = ''ABC''\<rparr>]
   \<and> fst (main empty_template_world) = Inr ()
   \<and> last (trace (snd (main empty_template_world)))
       = Print ''[FATAL] Exiting due to missing or invalid JSON data.''
   \<and> (http_events (trace (snd (main empty_template_world))) = []
      \<or> (\<exists>out. http_events (trace (snd (main empty_template_world)))
                  = [(auth_request empty_template_world (USERNAME empty_template_world)
                        (PASSWORD empty_template_world), out)]))"
proof -
  let ?w = empty_template_world
  have a: "json_files ?w DISPOSED_STATUS_JSON = JsonLoaded (JObj [])"
    by (simp add: empty_template_world_def demo_world_def)
  have b: "environment_set ?w"
    unfolding empty_template_world_def by (rule demo_world_environment)
  have c: "fst (get_bearer_token ?w (USERNAME ?w) (PASSWORD ?w) start_state) = Inr (Some ''tok'')"
    by (simp add: get_bearer_token_def get_bearer_token_try_def request_def Let_def
        empty_template_world_def demo_world_def flaky_network_def auth_request_def response_def
        is_error_status_def strip_chars_def quote_def)
  have d: "read_ids_from_csv_try ?w CSV_FILENAME = Inr [\<lparr>ID = ''1'', SerialNumber = ''ABC''\<rparr>]"
    by (simp add: read_ids_from_csv_try_def empty_template_world_def demo_world_def
        three_rows_read)
  from a have a': "json_files ?w DISPOSED_STATUS_JSON = JsonLoaded (JObj [])
                   \<or> json_files ?w COMMENT_JSON = JsonLoaded (JObj [])" by simp
  from a b c d main_empty_template_is_fatal [OF a'] show ?thesis by auto
qed

section \<open>The templates that \<open>main\<close> loads\<close>

text \<open>
  The loop is entered with templates that \<open>read_json_data\<close> has loaded; the lemmas below
  show that all their objects have identities below the next free one, which is what the
  frame property of the loop asks of the status template.
\<close>

lemma ids_of_items_dict_set:
  "ids_of_items (dict_set k v d) \<subseteq> ids_of v \<union> ids_of_items d"
  by (induction d) (auto split: if_splits)

lemma ids_of_items_fold:
  "ids_of_items (fold (\<lambda>(k, v) d. dict_set k v d) items d) \<subseteq> ids_of_items items \<union> ids_of_items d"
proof (induction items arbitrary: d)
  case Nil
  then show ?case by simp
next
  case (Cons kv items)
  obtain k v where kv: "kv = (k, v)" by (cases kv)
  from Cons.IH [of "dict_set k v d"] ids_of_items_dict_set [of k v d] kv
  show ?case by auto
qed

lemma ids_of_items_build_dict: "ids_of_items (build_dict items) \<subseteq> ids_of_items items"
  using ids_of_items_fold [of items "[]"] by (simp add: build_dict_def)

lemma from_json_fresh:
  "n \<le> snd (from_json j n) \<and> ids_of (fst (from_json j n)) \<subseteq> {n..<snd (from_json j n)}"
  "n \<le> snd (from_json_list js n)
     \<and> ids_of_list (fst (from_json_list js n)) \<subseteq> {n..<snd (from_json_list js n)}"
  "n \<le> snd (from_json_pairs kjs n)
     \<and> ids_of_items (fst (from_json_pairs kjs n)) \<subseteq> {n..<snd (from_json_pairs kjs n)}"
proof (induction j n and js n and kjs n rule: from_json_from_json_list_from_json_pairs.induct)
  case (7 kvs n)
  obtain items n' where p: "from_json_pairs kvs (Suc n) = (items, n')"
    by (cases "from_json_pairs kvs (Suc n)")
  with 7 ids_of_items_build_dict [of items] show ?case
    by (auto simp: subset_iff)
qed (force split: prod.splits simp: subset_iff)+

text \<open>Every object of a loaded template exists once \<open>read_json_data\<close> has returned.\<close>

lemma read_json_data_allocates:
  assumes "read_json_data w p s = (Inr v, s')"
  shows "next_id s \<le> next_id s' \<and> ids_of v \<subseteq> {..<next_id s'}"
proof (cases "json_files w p")
  case (JsonRaises e)
  with assms show ?thesis
    by (cases e) (auto simp: read_json_data_def Let_def emit_def split: if_splits)
next
  case (JsonLoaded doc)
  with assms from_json_fresh(1) [of "next_id s" doc] show ?thesis
    by (auto simp: read_json_data_def Let_def emit_def subset_iff split: prod.splits)
qed

section \<open>The steps of a run, in order\<close>

lemma update_asset_status_io:
  "io_events (trace (snd (update_asset_status w app_id asset_id token (PDict a kvs) s)))
     = io_events (trace s) @ [Http (update_request w app_id asset_id token kvs)
          (network w (trace s) (update_request w app_id asset_id token kvs))]"
proof (cases "network w (trace s) (update_request w app_id asset_id token kvs)")
  case (Responded r)
  then show ?thesis
    by (cases "is_error_status (status_code r)")
       (simp_all add: update_asset_status_def dict_items_def request_def Let_def emit_def
          io_events_append)
next
  case (Raised t msg)
  then show ?thesis
    by (simp add: update_asset_status_def dict_items_def request_def Let_def emit_def
          io_events_append)
qed

lemma post_asset_feed_entry_io:
  "io_events (trace (snd (post_asset_feed_entry w app_id asset_id token comment_data s)))
     = io_events (trace s) @ [Http (feed_request w app_id asset_id token comment_data)
          (network w (trace s) (feed_request w app_id asset_id token comment_data))]"
proof (cases "network w (trace s) (feed_request w app_id asset_id token comment_data)")
  case (Responded r)
  then show ?thesis
    by (cases "is_error_status (status_code r)")
       (simp_all add: post_asset_feed_entry_def request_def Let_def emit_def io_events_append)
next
  case (Raised t msg)
  then show ?thesis
    by (simp add: post_asset_feed_entry_def request_def Let_def emit_def io_events_append)
qed

text \<open>
  One iteration on a dictionary template, seen from outside: the PATCH of the asset and,
  after its success, the feed POST of the asset; no file is opened.
\<close>

lemma process_asset_io_step:
  "\<exists>st' cm' s' upd out rest.
      process_asset w token n_total i a (PDict b kvs) cm s = (Inr (st', cm'), s')
    \<and> is_dict st'
    \<and> io_events (trace s') = io_events (trace s) @ map as_event ((upd, out) # rest)
    \<and> req_method upd = PATCH \<and> req_url upd = asset_url w (APP_ID w) (ID a)
    \<and> (if succeeded out
        then (\<exists>r2 out2. rest = [(r2, out2)] \<and> req_method r2 = POST
                \<and> req_url r2 = asset_url w (APP_ID w) (ID a) @ ''/feed'')
        else rest = [])"
proof -
  obtain items n' where dc: "deepcopy_items kvs (Suc (next_id s)) = (items, n')"
    by (cases "deepcopy_items kvs (Suc (next_id s))")
  define s1 where "s1 = emit (Print (processing_message (ID a) i n_total)) s"
  define s2 where "s2 = s1\<lparr>next_id := n'\<rparr>"
  define sn where "sn = PStr (SerialNumber a)"
  define cur where "cur = dict_set ''serialNumber'' sn
     (assign_at_items (next_id s) ''serialNumber'' sn items)"
  define cm' where "cm' = assign_at (next_id s) ''serialNumber'' sn cm"
  define st' where "st' = assign_at (next_id s) ''serialNumber'' sn (PDict b kvs)"
  define upd where "upd = update_request w (APP_ID w) (ID a) token cur"
  define out where "out = network w (trace s2) upd"
  have d: "is_dict st'" unfolding st'_def by (rule is_dict_assign_at) simp
  have u: "req_method upd = PATCH" "req_url upd = asset_url w (APP_ID w) (ID a)"
    by (simp_all add: upd_def update_request_def)
  have h2: "io_events (trace s2) = io_events (trace s)"
    by (simp add: s2_def s1_def emit_def io_events_append)
  have curv: "assign_at (next_id s) ''serialNumber'' sn (PDict (next_id s) items)
               = PDict (next_id s) cur"
    by (simp add: cur_def)
  obtain s3 where us:
    "update_asset_status w (APP_ID w) (ID a) token
        (assign_at (next_id s) ''serialNumber'' sn (PDict (next_id s) items)) s2
       = (Inr (succeeded out), s3)"
    and h3: "io_events (trace s3) = io_events (trace s2) @ [Http upd out]"
    unfolding curv
    using update_asset_status_run [of w "APP_ID w" "ID a" token "next_id s" cur s2]
      update_asset_status_io [of w "APP_ID w" "ID a" token "next_id s" cur s2]
    by (cases "update_asset_status w (APP_ID w) (ID a) token (PDict (next_id s) cur) s2")
       (simp add: upd_def out_def)
  have unfold: "process_asset w token n_total i a (PDict b kvs) cm s =
      (case (if succeeded out
             then post_asset_feed_entry w (APP_ID w) (ID a) token cm' (emit (Sleep 1) s3)
             else (Inr False, s3)) of
         (Inl e, s4) \<Rightarrow> (Inl e, s4)
       | (Inr posted, s4) \<Rightarrow>
           (Inr (st', cm'), if i < n_total then emit (Sleep 1) s4 else s4))"
    using dc us
    unfolding cm'_def st'_def sn_def s2_def s1_def
    by (simp add: process_asset_def Let_def setitem_target_def next_id_emit
        del: assign_at.simps)
  show ?thesis
  proof (cases "succeeded out")
    case False
    with unfold h2 h3 d u show ?thesis
      by (auto simp: emit_def io_events_append as_event_def)
  next
    case True
    let ?s3' = "emit (Sleep 1) s3"
    let ?f = "feed_request w (APP_ID w) (ID a) token cm'"
    obtain s4 where ps:
      "post_asset_feed_entry w (APP_ID w) (ID a) token cm' ?s3'
         = (Inr (succeeded (network w (trace ?s3') ?f)), s4)"
      and h4: "io_events (trace s4) = io_events (trace ?s3') @ [Http ?f (network w (trace ?s3') ?f)]"
      using post_asset_feed_entry_run [of w "APP_ID w" "ID a" token cm' ?s3']
        post_asset_feed_entry_io [of w "APP_ID w" "ID a" token cm' ?s3']
      by (cases "post_asset_feed_entry w (APP_ID w) (ID a) token cm' ?s3'") simp
    have f: "req_method ?f = POST" "req_url ?f = asset_url w (APP_ID w) (ID a) @ ''/feed''"
      by (simp_all add: feed_request_def)
    define s5 where "s5 = (if i < n_total then emit (Sleep 1) s4 else s4)"
    have res: "process_asset w token n_total i a (PDict b kvs) cm s = (Inr (st', cm'), s5)"
      using True unfold ps by (simp add: s5_def)
    have io: "io_events (trace s5)
        = io_events (trace s) @ map as_event [(upd, out), (?f, network w (trace ?s3') ?f)]"
      using h2 h3 h4 by (simp add: s5_def emit_def io_events_append as_event_def)
    from True res io d u f show ?thesis
      by (intro exI [of _ st'] exI [of _ cm'] exI [of _ s5] exI [of _ upd] exI [of _ out]
            exI [of _ "[(?f, network w (trace ?s3') ?f)]"]) simp
  qed
qed

lemma process_assets_io:
  assumes "is_dict status"
  shows "\<exists>final s' hs.
      process_assets w token n_total i assets status cm s = (Inr final, s')
    \<and> io_events (trace s') = io_events (trace s) @ map as_event hs
    \<and> conforms (map (\<lambda>a. asset_url w (APP_ID w) (ID a)) assets) hs"
  using assms
proof (induction assets arbitrary: i status cm s)
  case Nil
  then show ?case by simp
next
  case (Cons a assets)
  from Cons.prems obtain b kvs where st: "status = PDict b kvs"
    by (cases status) simp_all
  from process_asset_io_step [of w token n_total i a b kvs cm s]
  obtain st' cm' s1 upd out rest where
    step: "process_asset w token n_total i a (PDict b kvs) cm s = (Inr (st', cm'), s1)"
    and d: "is_dict st'"
    and h1: "io_events (trace s1) = io_events (trace s) @ map as_event ((upd, out) # rest)"
    and upd: "req_method upd = PATCH" "req_url upd = asset_url w (APP_ID w) (ID a)"
    and rest: "if succeeded out
        then (\<exists>r2 out2. rest = [(r2, out2)] \<and> req_method r2 = POST
                \<and> req_url r2 = asset_url w (APP_ID w) (ID a) @ ''/feed'')
        else rest = []"
    by blast
  from Cons.IH [OF d, of "Suc i" cm' s1]
  obtain final s' hs where
    loop: "process_assets w token n_total (Suc i) assets st' cm' s1 = (Inr final, s')"
    and h: "io_events (trace s') = io_events (trace s1) @ map as_event hs"
    and conf: "conforms (map (\<lambda>a. asset_url w (APP_ID w) (ID a)) assets) hs"
    by blast
  have 1: "process_assets w token n_total i (a # assets) status cm s = (Inr final, s')"
    using st step loop by simp
  have 2: "io_events (trace s') = io_events (trace s) @ map as_event ((upd, out) # rest @ hs)"
    using h h1 by simp
  have 3: "conforms (map (\<lambda>a. asset_url w (APP_ID w) (ID a)) (a # assets))
             ((upd, out) # rest @ hs)"
    using rest conf upd by (auto split: if_splits)
  from 1 2 3 show ?case by blast
qed

text \<open>A template that is no dictionary stops the loop at its first record, before any call.\<close>

lemma setitem_target_deepcopy:
  "\<not> is_dict st \<Longrightarrow> \<exists>e. setitem_target (fst (deepcopy st n)) = Inl e"
  by (cases st) (auto simp: setitem_target_def split: prod.splits)

lemma process_assets_not_dict:
  assumes "\<not> is_dict status" and "assets \<noteq> []"
  shows "\<exists>e s'. process_assets w token n_total i assets status cm s = (Inl e, s')
               \<and> io_events (trace s') = io_events (trace s)"
proof -
  from assms(2) obtain a rest where a: "assets = a # rest" by (cases assets) auto
  define s1 where "s1 = emit (Print (processing_message (ID a) i n_total)) s"
  obtain copy n where dc: "deepcopy status (next_id s1) = (copy, n)"
    by (cases "deepcopy status (next_id s1)")
  from setitem_target_deepcopy [OF assms(1), of "next_id s1"] dc
  obtain e where e: "setitem_target copy = Inl e" by auto
  from dc e have "process_asset w token n_total i a status cm s = (Inl e, s1\<lparr>next_id := n\<rparr>)"
    by (simp add: process_asset_def Let_def s1_def [symmetric])
  with a show ?thesis
    by (simp add: s1_def emit_def io_events_append)
qed

lemma from_json_list_Nil: "(fst (from_json_list xs n) = []) = (xs = [])"
  by (cases xs) (auto split: prod.splits)

lemma from_json_pairs_Nil: "(fst (from_json_pairs kvs n) = []) = (kvs = [])"
  by (cases kvs) (auto split: prod.splits)

lemma dict_set_not_Nil: "dict_set k v d \<noteq> []"
  by (cases d) (auto split: if_splits)

lemma fold_dict_set_not_Nil:
  "d \<noteq> [] \<Longrightarrow> fold (\<lambda>(k, v) d. dict_set k v d) items d \<noteq> []"
proof (induction items arbitrary: d)
  case Nil
  then show ?case by simp
next
  case (Cons kv items)
  obtain k v where kv: "kv = (k, v)" by (cases kv)
  have "fold (\<lambda>(k, v) d. dict_set k v d) items (dict_set k v d) \<noteq> []"
    by (rule Cons.IH) (rule dict_set_not_Nil)
  with kv show ?case by simp
qed

lemma build_dict_Nil: "(build_dict items = []) = (items = [])"
proof (cases items)
  case Nil
  then show ?thesis by (simp add: build_dict_def)
next
  case (Cons kv rest)
  obtain k v where "kv = (k, v)" by (cases kv)
  with Cons fold_dict_set_not_Nil [of "dict_set k v []" rest] show ?thesis
    by (simp add: build_dict_def dict_set_not_Nil)
qed

lemma truthy_from_json: "truthy (fst (from_json doc n)) = json_truthy doc"
proof (cases doc)
  case (JArr xs)
  then show ?thesis
    using from_json_list_Nil [of xs "Suc n"] by (auto split: prod.splits)
next
  case (JObj kvs)
  then show ?thesis
    using from_json_pairs_Nil [of kvs "Suc n"] by (auto simp: build_dict_Nil split: prod.splits)
qed simp_all

lemma is_dict_from_json: "is_dict (fst (from_json doc n)) = json_is_object doc"
  by (cases doc) (auto split: prod.splits)

lemma read_json_data_value:
  "\<exists>v. fst (read_json_data w p s) = Inr v \<and> truthy v = loaded_truthy w p
        \<and> is_dict v = loaded_object w p"
proof (cases "json_files w p")
  case (JsonRaises e)
  then show ?thesis
    by (cases e) (simp add: read_json_data_def Let_def loaded_truthy_def loaded_object_def)
next
  case (JsonLoaded doc)
  then show ?thesis
    using truthy_from_json [of doc "next_id s"] is_dict_from_json [of doc "next_id s"]
    by (auto simp: read_json_data_def Let_def emit_def loaded_truthy_def loaded_object_def
        split: prod.splits)
qed

lemma dispose_steps:
  "(records_read w = [] \<longrightarrow>
      io_events (trace (snd (dispose w token s))) = io_events (trace s) @ [OpenFile CSV_FILENAME])
   \<and> (records_read w \<noteq> [] \<and> \<not> templates_usable w \<longrightarrow>
      io_events (trace (snd (dispose w token s)))
        = io_events (trace s) @ [OpenFile CSV_FILENAME, OpenFile DISPOSED_STATUS_JSON,
                               OpenFile COMMENT_JSON])
   \<and> (records_read w \<noteq> [] \<and> templates_usable w \<longrightarrow>
      (\<exists>hs. io_events (trace (snd (dispose w token s)))
               = io_events (trace s) @ OpenFile CSV_FILENAME # OpenFile DISPOSED_STATUS_JSON
                   # OpenFile COMMENT_JSON # map as_event hs
           \<and> conforms (map (\<lambda>a. asset_url w (APP_ID w) (ID a)) (records_read w)) hs))"
proof -
  let ?assets = "records_read w"
  define s2 where "s2 = snd (read_ids_from_csv w CSV_FILENAME s)"
  have csv: "read_ids_from_csv w CSV_FILENAME s = (Inr ?assets, s2)"
    using read_ids_from_csv_result [of w CSV_FILENAME s]
    by (simp add: s2_def prod_eq_iff records_read_def)
  have io2: "io_events (trace s2) = io_events (trace s) @ [OpenFile CSV_FILENAME]"
    unfolding s2_def by (rule read_ids_from_csv_run(3))
  show ?thesis
  proof (cases "?assets = []")
    case True
    with csv io2 show ?thesis
      by (simp add: dispose_def emit_def io_events_append)
  next
    case ne: False
    define s3 where "s3 = emit (Print (''[INFO] Found '' @ str_nat (length ?assets)
                                   @ '' valid asset entries to process.'')) s2"
    have io3: "io_events (trace s3) = io_events (trace s2)"
      by (simp add: s3_def emit_def io_events_append)
    obtain status where f4: "fst (read_json_data w DISPOSED_STATUS_JSON s3) = Inr status"
      and t4: "truthy status = loaded_truthy w DISPOSED_STATUS_JSON"
      and d4: "is_dict status = loaded_object w DISPOSED_STATUS_JSON"
      using read_json_data_value by blast
    define s4 where "s4 = snd (read_json_data w DISPOSED_STATUS_JSON s3)"
    from f4 have j4: "read_json_data w DISPOSED_STATUS_JSON s3 = (Inr status, s4)"
      by (simp add: s4_def prod_eq_iff)
    have io4: "io_events (trace s4) = io_events (trace s3) @ [OpenFile DISPOSED_STATUS_JSON]"
      unfolding s4_def by (rule read_json_data_run(3))
    obtain comment where f5: "fst (read_json_data w COMMENT_JSON s4) = Inr comment"
      and t5: "truthy comment = loaded_truthy w COMMENT_JSON"
      using read_json_data_value by blast
    define s5 where "s5 = snd (read_json_data w COMMENT_JSON s4)"
    from f5 have j5: "read_json_data w COMMENT_JSON s4 = (Inr comment, s5)"
      by (simp add: s5_def prod_eq_iff)
    have io5: "io_events (trace s5) = io_events (trace s4) @ [OpenFile COMMENT_JSON]"
      unfolding s5_def by (rule read_json_data_run(3))
    have io5': "io_events (trace s5)
        = io_events (trace s) @ [OpenFile CSV_FILENAME, OpenFile DISPOSED_STATUS_JSON,
                               OpenFile COMMENT_JSON]"
      using io2 io3 io4 io5 by simp
    show ?thesis
    proof (cases "\<not> truthy status \<or> \<not> truthy comment")
      case falsy: True
      with csv ne j4 j5 have
        "dispose w token s = (Inr (), emit fatal_json s5)"
        unfolding s3_def by (auto simp: dispose_def Let_def fatal_json_def)
      then have io: "io_events (trace (snd (dispose w token s)))
        = io_events (trace s) @ [OpenFile CSV_FILENAME, OpenFile DISPOSED_STATUS_JSON,
                               OpenFile COMMENT_JSON]"
        using io5' by (simp add: emit_def io_events_append fatal_json_def)
      have nu: "\<not> templates_usable w"
        using falsy t4 t5 by (auto simp: templates_usable_def)
      from ne nu io show ?thesis by simp
    next
      case False
      then have truthy: "truthy status \<and> truthy comment" by simp
      define s6 where "s6 = emit (Print (newline # ''[INFO] Starting Mass Disposing...'')) s5"
      have io6: "io_events (trace s6) = io_events (trace s5)"
        by (simp add: s6_def emit_def io_events_append)
      have unfold: "dispose w token s
          = (case process_assets w token (length ?assets) 1 ?assets status comment s6 of
               (Inl e, s7) \<Rightarrow> (Inl e, s7)
             | (Inr final, s7) \<Rightarrow>
                 (Inr (), emit (Print (newline # ''--- Processing Complete ---'')) s7))"
        using csv ne j4 j5 truthy
        unfolding s3_def s6_def by (simp add: dispose_def Let_def)
      show ?thesis
      proof (cases "is_dict status")
        case nd: False
        from process_assets_not_dict [OF nd ne, of w token "length ?assets" 1 comment s6]
        obtain e s7 where
          "process_assets w token (length ?assets) 1 ?assets status comment s6 = (Inl e, s7)"
          and "io_events (trace s7) = io_events (trace s6)" by blast
        with unfold io6 io5' have io: "io_events (trace (snd (dispose w token s)))
          = io_events (trace s) @ [OpenFile CSV_FILENAME, OpenFile DISPOSED_STATUS_JSON,
                               OpenFile COMMENT_JSON]"
          by simp
        have nu: "\<not> templates_usable w"
          using nd d4 by (simp add: templates_usable_def)
        from ne nu io show ?thesis by simp
      next
        case dict: True
        from process_assets_io [OF dict, of w token "length ?assets" 1 ?assets comment s6]
        obtain final s7 hs where
          loop: "process_assets w token (length ?assets) 1 ?assets status comment s6
                   = (Inr final, s7)"
          and io7: "io_events (trace s7) = io_events (trace s6) @ map as_event hs"
          and conf: "conforms (map (\<lambda>a. asset_url w (APP_ID w) (ID a)) ?assets) hs"
          by blast
        have io: "io_events (trace (snd (dispose w token s)))
               = io_events (trace s) @ OpenFile CSV_FILENAME # OpenFile DISPOSED_STATUS_JSON
                   # OpenFile COMMENT_JSON # map as_event hs"
          using unfold loop io7 io6 io5' by (simp add: emit_def io_events_append)
        have us: "templates_usable w"
          using dict truthy t4 t5 d4 by (simp add: templates_usable_def)
        from ne us io conf show ?thesis by blast
      qed
    qed
  qed
qed

lemma token_obtained_iff:
  assumes "get_bearer_token w (USERNAME w) (PASSWORD w) start_state = (r, s1)"
  shows "token_obtained w = (\<exists>token. r = Inr token \<and> truthy_str token)"
  using assms
  by (auto simp: token_obtained_def truthy_str_def split: sum.splits option.splits)

text \<open>
  C9 (as amended). The outside actions of every run are, in this order: the
  authentication call; the opening of the input file; the opening of the status template
  and then of the comment template; and then, for each record read and in the order of
  the file, the update call of the record followed by its feed call when the update
  succeeded. A run that fails at a step stops there: without the environment it does
  nothing; without a token it stops after the authentication call; with no valid record
  it stops after the input file; with a template that is missing, unparsable or falsy, or
  a status template that is no mapping, it stops after the templates.
\<close>

theorem main_steps_in_order:
  "(\<not> environment_set w \<longrightarrow> io_events (trace (snd (main w))) = [])
   \<and> (environment_set w \<and> \<not> token_obtained w \<longrightarrow>
        io_events (trace (snd (main w)))
          = [Http (auth_request w (USERNAME w) (PASSWORD w))
               (network w (trace start_state) (auth_request w (USERNAME w) (PASSWORD w)))])
   \<and> (environment_set w \<and> token_obtained w \<and> records_read w = [] \<longrightarrow>
        io_events (trace (snd (main w)))
          = [Http (auth_request w (USERNAME w) (PASSWORD w))
               (network w (trace start_state) (auth_request w (USERNAME w) (PASSWORD w))),
             OpenFile CSV_FILENAME])
   \<and> (environment_set w \<and> token_obtained w \<and> records_read w \<noteq> [] \<and> \<not> templates_usable w \<longrightarrow>
        io_events (trace (snd (main w)))
          = [Http (auth_request w (USERNAME w) (PASSWORD w))
               (network w (trace start_state) (auth_request w (USERNAME w) (PASSWORD w))),
             OpenFile CSV_FILENAME, OpenFile DISPOSED_STATUS_JSON, OpenFile COMMENT_JSON])
   \<and> (environment_set w \<and> token_obtained w \<and> records_read w \<noteq> [] \<and> templates_usable w \<longrightarrow>
        (\<exists>hs. io_events (trace (snd (main w)))
                 = Http (auth_request w (USERNAME w) (PASSWORD w))
                     (network w (trace start_state) (auth_request w (USERNAME w) (PASSWORD w)))
                   # OpenFile CSV_FILENAME # OpenFile DISPOSED_STATUS_JSON
                   # OpenFile COMMENT_JSON # map as_event hs
             \<and> conforms (map (\<lambda>a. asset_url w (APP_ID w) (ID a)) (records_read w)) hs))"
proof (cases "environment_set w")
  case False
  then show ?thesis
    by (simp add: main_not_set emit_def io_events_append start_state_events)
next
  case env: True
  let ?auth = "auth_request w (USERNAME w) (PASSWORD w)"
  let ?A = "Http ?auth (network w (trace start_state) ?auth)"
  obtain r s1 where g: "get_bearer_token w (USERNAME w) (PASSWORD w) start_state = (r, s1)"
    by (cases "get_bearer_token w (USERNAME w) (PASSWORD w) start_state")
  have io1: "io_events (trace s1) = [?A]"
    using get_bearer_token_run(2) [of w "USERNAME w" "PASSWORD w" start_state] g
    by (simp add: start_state_events)
  note tok = token_obtained_iff [OF g]
  show ?thesis
  proof (cases "token_obtained w")
    case False
    have "io_events (trace (snd (main w))) = [?A]"
    proof (cases r)
      case (Inl e)
      with env g io1 show ?thesis by (simp add: main_set)
    next
      case (Inr token)
      with False tok have "\<not> truthy_str token" by simp
      with env g Inr io1 show ?thesis
        by (simp add: main_set emit_def io_events_append)
    qed
    with env False show ?thesis by simp
  next
    case True
    with tok obtain token where r: "r = Inr token" and t: "truthy_str token" by blast
    from env g r t have m: "main w = dispose w token s1" by (simp add: main_set)
    note steps = dispose_steps [of w token s1, unfolded io1 m [symmetric]]
    from env True steps show ?thesis by simp
  qed
qed

lemma flaky_records: "records_read flaky_world = three_assets"
  by code_simp

lemma flaky_token_obtained: "token_obtained flaky_world"
  by (simp add: token_obtained_def get_bearer_token_def get_bearer_token_try_def request_def
      Let_def flaky_world_def demo_world_def flaky_network_def auth_request_def response_def
      is_error_status_def strip_chars_def quote_def)

lemma flaky_templates_usable: "templates_usable flaky_world"
  by (simp add: templates_usable_def loaded_truthy_def loaded_object_def flaky_world_def
      demo_world_def status_document_def comment_document_def DISPOSED_STATUS_JSON_def
      COMMENT_JSON_def)

theorem main_steps_in_order_witness:
  "environment_set flaky_world \<and> token_obtained flaky_world
   \<and> records_read flaky_world = three_assets \<and> templates_usable flaky_world
   \<and> (\<exists>hs. io_events (trace (snd (main flaky_world)))
              = Http (auth_request flaky_world (USERNAME flaky_world) (PASSWORD flaky_world))
                  (network flaky_world (trace start_state)
                     (auth_request flaky_world (USERNAME flaky_world) (PASSWORD flaky_world)))
                # OpenFile CSV_FILENAME # OpenFile DISPOSED_STATUS_JSON
                # OpenFile COMMENT_JSON # map as_event hs
          \<and> conforms (map (\<lambda>a. asset_url flaky_world (APP_ID flaky_world) (ID a)) three_assets)
                hs)"
proof -
  have e: "environment_set flaky_world"
    unfolding flaky_world_def by (rule demo_world_environment)
  have ne: "records_read flaky_world \<noteq> []"
    by (simp add: flaky_records three_assets_def)
  from e flaky_token_obtained ne flaky_templates_usable flaky_records main_steps_in_order [of flaky_world]
  show ?thesis by simp
qed

text \<open>
  C7 (as amended). When the authentication call is answered with an HTTP error status
  (400 to 599), or with any status and a body that is empty once its quotes are stripped,
  \<open>get_bearer_token\<close> yields no token, \<open>main\<close> returns normally, and the run makes no update
  and no comment call: its only HTTP call, if it makes one, is the authentication call.
\<close>

theorem main_makes_no_calls_without_token:
  assumes "network w [Print ''--- Starting Asset Disposer ---'']
             (auth_request w (USERNAME w) (PASSWORD w)) = Responded r"
    and "is_error_status (status_code r) \<or> strip_chars (\<lambda>c. c = quote) (body_text r) = []"
  shows "fst (main w) = Inr ()
       \<and> (http_events (trace (snd (main w))) = []
          \<or> http_events (trace (snd (main w)))
               = [(auth_request w (USERNAME w) (PASSWORD w), Responded r)])"
proof -
  have n: "network w (trace start_state) (auth_request w (USERNAME w) (PASSWORD w)) = Responded r"
    using assms(1) by (simp add: start_state_events)
  have "\<exists>token. fst (get_bearer_token w (USERNAME w) (PASSWORD w) start_state) = Inr token
                \<and> \<not> truthy_str token"
  proof (cases "is_error_status (status_code r)")
    case True
    from get_bearer_token_http_error [OF n True] show ?thesis
      by (simp add: truthy_str_def)
  next
    case False
    with assms(2) have "strip_chars (\<lambda>c. c = quote) (body_text r) = []" by simp
    with get_bearer_token_success [OF n False] show ?thesis
      by (simp add: truthy_str_def)
  qed
  then obtain token where
    "fst (get_bearer_token w (USERNAME w) (PASSWORD w) start_state) = Inr token"
    and "\<not> truthy_str token" by blast
  from main_without_token [OF this] n show ?thesis by simp
qed

theorem main_makes_no_calls_without_token_witness:
  "network unauthorized_world [Print ''--- Starting Asset Disposer ---'']
       (auth_request unauthorized_world (USERNAME unauthorized_world)
          (PASSWORD unauthorized_world)) = Responded (response 401 ''denied'')
   \<and> is_error_status (status_code (response 401 ''denied''))
   \<and> fst (main unauthorized_world) = Inr ()
   \<and> (http_events (trace (snd (main unauthorized_world))) = []
      \<or> http_events (trace (snd (main unauthorized_world)))
           = [(auth_request unauthorized_world (USERNAME unauthorized_world)
                 (PASSWORD unauthorized_world), Responded (response 401 ''denied''))])"
proof -
  have a: "network unauthorized_world [Print ''--- Starting Asset Disposer ---'']
       (auth_request unauthorized_world (USERNAME unauthorized_world)
          (PASSWORD unauthorized_world)) = Responded (response 401 ''denied'')"
    by (simp add: unauthorized_world_def demo_world_def)
  have b: "is_error_status (status_code (response 401 ''denied''))"
    by (simp add: is_error_status_def response_def)
  from b have c: "is_error_status (status_code (response 401 ''denied''))
     \<or> strip_chars (\<lambda>c. c = quote) (body_text (response 401 ''denied'')) = []" by simp
  from a b main_makes_no_calls_without_token [OF a c] show ?thesis by blast
qed

lemma redirect_token:
  "get_bearer_token redirect_world (Some ''user'') (Some ''secret'') s
     = (Inr (Some ''tok''),
        emit (Print ''[INFO] Authenticated successfully.'')
          (emit (Http (auth_request redirect_world (Some ''user'') (Some ''secret''))
                   (Responded (response 304 (quote # ''tok'' @ [quote])))) s))"
  by (simp add: get_bearer_token_def get_bearer_token_try_def request_def Let_def
      redirect_world_def demo_world_def auth_request_def response_def
      is_error_status_def strip_chars_def quote_def)

lemma redirect_csv:
  "read_ids_from_csv redirect_world CSV_FILENAME s
     = (Inr [\<lparr>ID = ''1'', SerialNumber = ''ABC''\<rparr>], emit (OpenFile CSV_FILENAME) s)"
  by (simp add: read_ids_from_csv_def read_ids_from_csv_try_def Let_def redirect_world_def
      demo_world_def three_rows_read)

lemma redirect_json:
  "read_json_data redirect_world DISPOSED_STATUS_JSON s
     = (Inr (PDict (next_id s)
               [(''statusId'', PInt 7), (''tags'', PList (Suc (next_id s)) [PStr ''disposed''])]),
        (emit (OpenFile DISPOSED_STATUS_JSON) s)\<lparr>next_id := Suc (Suc (next_id s))\<rparr>)"
  "read_json_data redirect_world COMMENT_JSON s
     = (Inr (PDict (next_id s) [(''body'', PStr ''Disposed'')]),
        (emit (OpenFile COMMENT_JSON) s)\<lparr>next_id := Suc (next_id s)\<rparr>)"
  by (simp_all add: read_json_data_def Let_def redirect_world_def demo_world_def
      status_document_def comment_document_def build_dict_def emit_def
      DISPOSED_STATUS_JSON_def COMMENT_JSON_def)

text \<open>
  C7 as stated fails for a response that is not 2xx and not an error either: a 304 with
  the body \<^verbatim>\<open>"tok"\<close> passes \<open>raise_for_status\<close>, the body becomes the token, and the run
  goes on to the update and the feed call of the record.
\<close>

theorem main_continues_after_304_counterexample:
  "network redirect_world [Print ''--- Starting Asset Disposer ---'']
       (auth_request redirect_world (USERNAME redirect_world) (PASSWORD redirect_world))
     = Responded (response 304 (quote # ''tok'' @ [quote]))
   \<and> status_code (response 304 (quote # ''tok'' @ [quote])) = 304
   \<and> map call_summary (http_events (trace (snd (main redirect_world))))
       = [(POST, ''https://auth'', True),
          (PATCH, ''https://api/app/assets/1'', True),
          (POST, ''https://api/app/assets/1/feed'', True)]"
proof -
  have env: "USERNAME redirect_world = Some ''user''" "PASSWORD redirect_world = Some ''secret''"
    "APP_ID redirect_world = Some ''app''" "API_BASE_URL redirect_world = Some ''https://api''"
    "AUTH_URL redirect_world = Some ''https://auth''"
    "network redirect_world = (\<lambda>tr r. Responded (response 304 (quote # ''tok'' @ [quote])))"
    by (simp_all add: redirect_world_def demo_world_def)
  have e: "environment_set redirect_world"
    unfolding redirect_world_def by (rule demo_world_environment)
  have m: "main redirect_world = dispose redirect_world (Some ''tok'')
      (emit (Print ''[INFO] Authenticated successfully.'')
          (emit (Http (auth_request redirect_world (Some ''user'') (Some ''secret''))
                   (Responded (response 304 (quote # ''tok'' @ [quote])))) start_state))"
    using main_set [OF e] by (simp add: env redirect_token truthy_str_def)
  show ?thesis
    unfolding m
    by (simp add: env dispose_def redirect_csv redirect_json Let_def
        process_asset_def setitem_target_def update_asset_status_def dict_items_def
        post_asset_feed_entry_def request_def emit_def update_request_def feed_request_def
        asset_url_def py_str_def response_def is_error_status_def http_events_append
        call_summary_def succeeded_def start_state_def initial_def auth_request_def)
qed

end
